(* ===== verification/Polls_Prelude.thy ===== *)
theory Polls_Prelude
  imports Main
begin

text \<open>
  Shared vocabulary of the polls development: the types that name the model's
  values (timestamps, primary keys), the collection \<open>polls_defs\<close> of definitions the
  component proofs unfold, and generic lemmas on lists keyed by a primary key, which
  is how the Django ORM tables are represented (a list of rows in primary-key order).
\<close>

named_theorems polls_defs "definitions of the polls model unfolded by the component proofs"

type_synonym timestamp = int \<comment> \<open>a Django aware datetime, in microseconds\<close>
type_synonym pk = int \<comment> \<open>a primary key (Django AutoField, a Python int)\<close>

text \<open>
  \<open>replace_key key r xs\<close> replaces every row whose key equals the key of \<open>r\<close> by \<open>r\<close>:
  an SQL \<open>UPDATE ... WHERE pk = r.pk\<close> over a table held as a list.
\<close>

definition replace_key :: "('a \<Rightarrow> 'k) \<Rightarrow> 'a \<Rightarrow> 'a list \<Rightarrow> 'a list" where
  "replace_key key r xs = map (\<lambda>x. if key x = key r then r else x) xs"

lemma map_key_replace_key [simp]:
  "map key (replace_key key r xs) = map key xs"
  by (induction xs) (auto simp: replace_key_def)

lemma set_replace_key_mem:
  "y \<in> set (replace_key key r xs) \<Longrightarrow> y = r \<or> (y \<in> set xs \<and> key y \<noteq> key r)"
  by (auto simp: replace_key_def)

lemma replace_key_hit:
  "x \<in> set xs \<Longrightarrow> key x = key r \<Longrightarrow> r \<in> set (replace_key key r xs)"
  by (force simp: replace_key_def)

lemma replace_key_idem: "replace_key key r (replace_key key r xs) = replace_key key r xs"
  by (induction xs) (simp_all add: replace_key_def)

text \<open>Rows with distinct keys: a key selects at most one row.\<close>

lemma distinct_key_unique:
  "distinct (map key xs) \<Longrightarrow> x \<in> set xs \<Longrightarrow> y \<in> set xs \<Longrightarrow> key x = key y \<Longrightarrow> x = y"
  by (metis distinct_map inj_onD)

lemma distinct_key_filter_single:
  assumes "distinct (map key xs)" and "x \<in> set xs" and "P x"
  shows "filter (\<lambda>y. key y = key x \<and> P y) xs = [x]"
  using assms
proof (induction xs)
  case Nil
  then show ?case by simp
next
  case (Cons a xs)
  show ?case
  proof (cases "a = x")
    case True
    with Cons.prems have "\<forall>y\<in>set xs. key y \<noteq> key x" by (auto simp: image_iff)
    with True Cons.prems(3) show ?thesis by (simp add: filter_empty_conv)
  next
    case False
    with Cons.prems have "x \<in> set xs" and "key a \<noteq> key x" by auto
    with Cons.prems Cons.IH show ?thesis by simp
  qed
qed

lemma filter_key_length_le_1:
  "distinct (map key xs) \<Longrightarrow> length (filter (\<lambda>y. key y = k \<and> P y) xs) \<le> 1"
proof (induction xs)
  case Nil
  then show ?case by simp
next
  case (Cons a xs)
  show ?case
  proof (cases "key a = k")
    case True
    with Cons.prems have "filter (\<lambda>y. key y = k \<and> P y) xs = []"
      by (auto simp: filter_empty_conv image_iff)
    then show ?thesis by simp
  next
    case False
    with Cons show ?thesis by simp
  qed
qed

lemma dropWhile_hd_keep: "s \<noteq> [] \<Longrightarrow> \<not> P (hd s) \<Longrightarrow> dropWhile P s = s"
  by (cases s) auto

text \<open>Lookup by key after an update or an append.\<close>

lemma find_replace_key:
  "find (\<lambda>x. key x = k) (replace_key key r xs) =
     (if k = key r \<and> k \<in> set (map key xs) then Some r else find (\<lambda>x. key x = k) xs)"
  by (induction xs) (auto simp: replace_key_def)

lemma find_key_absent: "k \<notin> set (map key xs) \<Longrightarrow> find (\<lambda>x. key x = k) xs = None"
  by (induction xs) auto

lemma find_snoc:
  "find P (xs @ [r]) = (case find P xs of None \<Rightarrow> if P r then Some r else None | Some x \<Rightarrow> Some x)"
  by (induction xs) auto

lemma find_key_distinct:
  "distinct (map key xs) \<Longrightarrow> x \<in> set xs \<Longrightarrow> find (\<lambda>y. key y = key x) xs = Some x"
  by (induction xs) (auto simp: image_iff)

text \<open>Lists updated at an index, and what a search finds.\<close>

lemma list_all_update: "list_all P xs \<Longrightarrow> P x \<Longrightarrow> list_all P (xs[i := x])"
  by (induction xs arbitrary: i) (auto split: nat.splits)

lemma length_filter_update_not:
  "i < length xs \<Longrightarrow> \<not> P (xs ! i) \<Longrightarrow>
   length (filter P (xs[i := x])) = length (filter P xs) + (if P x then 1 else 0)"
  by (induction xs arbitrary: i) (auto split: nat.splits)

lemma list_all_nth: "list_all P xs \<Longrightarrow> i < length xs \<Longrightarrow> P (xs ! i)"
  by (simp add: list_all_length)

lemma sum_list_map_le_const: "(\<And>x. f x \<le> c) \<Longrightarrow> sum_list (map f xs) \<le> length xs * (c :: nat)"
  by (induction xs) (simp_all add: add_mono)

lemma sum_list_map_update_less:
  "i < length xs \<Longrightarrow> f x < f (xs ! i) \<Longrightarrow> sum_list (map f (xs[i := x])) < sum_list (map f xs :: nat list)"
  by (induction xs arbitrary: i) (auto split: nat.splits)

lemma replicate_append_update:
  "m < n \<Longrightarrow> (replicate m x @ replicate (n - m) y)[m := x] = replicate (Suc m) x @ replicate (n - Suc m) y"
proof -
  assume "m < n"
  then obtain k where k: "n - m = Suc k" by (cases "n - m") auto
  then have "n - Suc m = k" by arith
  with k show ?thesis by (simp add: list_update_append replicate_app_Cons_same)
qed

lemma length_filter_zip_le:
  "length (filter (\<lambda>(x, y). Q y \<and> P x) (zip xs ys)) \<le> length (filter P xs)"
proof (induction xs arbitrary: ys)
  case Nil
  then show ?case by simp
next
  case (Cons x xs)
  then show ?case by (cases ys) (simp_all add: Cons.IH le_SucI)
qed

lemma length_filter_zip_all:
  "length xs = length ys \<Longrightarrow> list_all Q ys \<Longrightarrow>
   length (filter (\<lambda>(x, y). Q y \<and> P x) (zip xs ys)) = length (filter P xs)"
  by (induction xs ys rule: list_induct2) auto

lemma find_Some_mem: "find P xs = Some y \<Longrightarrow> y \<in> set xs \<and> P y"
  by (induction xs) (auto split: if_splits)

end
