(* ===== verification/Polls_Models.thy ===== *)
theory Polls_Models
  imports Polls_Prelude
begin

text \<open>
  The entities of the polls app (\<open>polls/models.py\<close>, which is not among the staged
  sources, so modelled from the specification and from the uses in \<open>views.py\<close> and
  \<open>tests.py\<close>): a \<open>Question\<close> with its text and publication date, a \<open>Choice\<close>
  belonging to one question with a vote counter, and the publication-window
  predicates of the specification's PublishWindowEvaluator
  (\<open>Question.was_published_recently\<close> and the visibility rule).
  Time is a Django aware datetime counted in microseconds, the resolution of
  Python's \<open>datetime\<close>; \<open>timedelta(days=n)\<close> is \<open>n\<close> days of microseconds.
\<close>

record question =
  qid :: pk
  question_text :: string
  pub_date :: timestamp

record choice =
  cid :: pk
  choice_question :: pk \<comment> \<open>the foreign key \<open>Choice.question\<close>\<close>
  choice_text :: string
  votes :: int

definition day :: int where
  "day = 86400 * 1000000"

definition timedelta_days :: "int \<Rightarrow> int" where
  "timedelta_days n = n * day"

text \<open>\<open>was_published_recently\<close>: published, and less than one day ago (spec 4.1).\<close>

definition was_published_recently :: "question \<Rightarrow> timestamp \<Rightarrow> bool" where
  "was_published_recently q now \<longleftrightarrow> pub_date q \<le> now \<and> now - pub_date q < day"

definition is_visible :: "question \<Rightarrow> timestamp \<Rightarrow> bool" where
  "is_visible q now \<longleftrightarrow> pub_date q \<le> now"

declare was_published_recently_def [polls_defs] is_visible_def [polls_defs]

lemma day_pos [simp]: "0 < day"
  by (simp add: day_def)

end
