(* ===== verification/Polls_Store.thy ===== *)
theory Polls_Store
  imports Polls_Models
begin

text \<open>
  The persistence layer the views call through the Django ORM, as the specification's
  external interface (\<open>findQuestionById\<close>, \<open>findChoiceById\<close> scoped to a question,
  the save of a choice): the database is a record of two tables, each a list of rows
  in primary-key (insertion) order, and the auto-increment counters of the two tables.
  \<open>Manager.get\<close> is \<open>orm_get\<close>: no row is \<open>DoesNotExist\<close>, more than one is
  \<open>MultipleObjectsReturned\<close>. \<open>get_object_or_404\<close> turns \<open>DoesNotExist\<close> into
  \<open>Http404\<close>. \<open>Model.save()\<close> on a row with a primary key is an \<open>UPDATE\<close> of every
  field, and an \<open>INSERT\<close> when no row has that key. Every Python exception the
  views can meet is a constructor of \<open>exc\<close>.
\<close>

datatype exc =
    Http404
  | KeyError
  | DoesNotExist
  | MultipleObjectsReturned
  | ValueError
  | TypeError
  | NoReverseMatch
  | IntegrityError

record db =
  questions :: "question list"
  choices :: "choice list"
  next_qid :: pk
  next_cid :: pk

definition empty_db :: db where
  "empty_db = \<lparr>questions = [], choices = [], next_qid = 1, next_cid = 1\<rparr>"

definition orm_get :: "('a \<Rightarrow> bool) \<Rightarrow> 'a list \<Rightarrow> exc + 'a" where
  "orm_get P rows =
     (case filter P rows of
        [] \<Rightarrow> Inl DoesNotExist
      | [r] \<Rightarrow> Inr r
      | _ \<Rightarrow> Inl MultipleObjectsReturned)"

text \<open>\<open>get_object_or_404(Question, pk=question_id)\<close>.\<close>

definition get_question_or_404 :: "db \<Rightarrow> pk \<Rightarrow> exc + question" where
  "get_question_or_404 d k =
     (case orm_get (\<lambda>q. qid q = k) (questions d) of
        Inl DoesNotExist \<Rightarrow> Inl Http404
      | r \<Rightarrow> r)"

text \<open>\<open>question.choice_set.get(pk=k)\<close>: the choices whose foreign key is the question.\<close>

definition choice_set_get :: "db \<Rightarrow> question \<Rightarrow> pk \<Rightarrow> exc + choice" where
  "choice_set_get d q k = orm_get (\<lambda>c. choice_question c = qid q \<and> cid c = k) (choices d)"

text \<open>\<open>Question.objects.all()\<close>: every row, in primary-key order.\<close>

definition objects_all :: "db \<Rightarrow> question list" where
  "objects_all d = questions d"

text \<open>\<open>selected_choice.save()\<close>.\<close>

definition save_choice :: "db \<Rightarrow> choice \<Rightarrow> db" where
  "save_choice d c =
     (if cid c \<in> set (map cid (choices d))
      then d\<lparr>choices := replace_key cid c (choices d)\<rparr>
      else d\<lparr>choices := choices d @ [c]\<rparr>)"

text \<open>\<open>Question.objects.create(question_text=..., pub_date=...)\<close>.\<close>

definition question_objects_create :: "db \<Rightarrow> string \<Rightarrow> timestamp \<Rightarrow> question \<times> db" where
  "question_objects_create d txt t =
     (let q = \<lparr>qid = next_qid d, question_text = txt, pub_date = t\<rparr>
      in (q, d\<lparr>questions := questions d @ [q], next_qid := next_qid d + 1\<rparr>))"

text \<open>
  \<open>Choice.objects.create(question=q, choice_text=...)\<close>, with the vote counter at its
  default 0; a foreign key that names no question is an \<open>IntegrityError\<close>.
\<close>

definition create_choice :: "db \<Rightarrow> pk \<Rightarrow> string \<Rightarrow> exc + (choice \<times> db)" where
  "create_choice d k txt =
     (if k \<in> set (map qid (questions d)) then
        (let c = \<lparr>cid = next_cid d, choice_question = k, choice_text = txt, votes = 0\<rparr>
         in Inr (c, d\<lparr>choices := choices d @ [c], next_cid := next_cid d + 1\<rparr>))
      else Inl IntegrityError)"

text \<open>
  Well-formed databases: primary keys are unique and below the auto-increment
  counters, every choice's foreign key names a question, and no counter is negative.
\<close>

definition wf_db :: "db \<Rightarrow> bool" where
  "wf_db d \<longleftrightarrow>
     distinct (map qid (questions d)) \<and> distinct (map cid (choices d)) \<and>
     list_all (\<lambda>c. choice_question c \<in> set (map qid (questions d))) (choices d) \<and>
     list_all (\<lambda>c. 0 \<le> votes c) (choices d) \<and>
     list_all (\<lambda>q. qid q < next_qid d) (questions d) \<and>
     list_all (\<lambda>c. cid c < next_cid d) (choices d)"

text \<open>The abstraction of the database to its vote tallies, the state of VoteRecorder.\<close>

definition tally :: "db \<Rightarrow> pk \<Rightarrow> int option" where
  "tally d k = map_option votes (find (\<lambda>c. cid c = k) (choices d))"

definition owner :: "db \<Rightarrow> pk \<Rightarrow> pk option" where
  "owner d k = map_option choice_question (find (\<lambda>c. cid c = k) (choices d))"

declare orm_get_def [polls_defs] get_question_or_404_def [polls_defs] objects_all_def [polls_defs]
  question_objects_create_def [polls_defs] empty_db_def [polls_defs]

subsection \<open>Lookups and the invariant\<close>

lemma orm_get_single:
  "distinct (map key rows) \<Longrightarrow> r \<in> set rows \<Longrightarrow> P r \<Longrightarrow>
   orm_get (\<lambda>x. key x = key r \<and> P x) rows = Inr r"
  by (simp add: orm_get_def distinct_key_filter_single)

lemma orm_get_none:
  "\<not> (\<exists>r\<in>set rows. P r) \<Longrightarrow> orm_get P rows = Inl DoesNotExist"
  by (simp add: orm_get_def filter_empty_conv)

lemma orm_get_Inr: "orm_get P rows = Inr r \<Longrightarrow> r \<in> set rows \<and> P r"
proof -
  assume a: "orm_get P rows = Inr r"
  then have "filter P rows = [r]"
    by (auto simp: orm_get_def split: list.splits)
  then have "r \<in> set (filter P rows)" by simp
  then show ?thesis by simp
qed

lemma orm_get_unique_key:
  "distinct (map key rows) \<Longrightarrow> orm_get (\<lambda>x. key x = k \<and> P x) rows \<noteq> Inl MultipleObjectsReturned"
  using filter_key_length_le_1 [of key rows k P]
  by (auto simp: orm_get_def split: list.splits)

lemma orm_get_Inl: "orm_get P rows = Inl e \<Longrightarrow> e = DoesNotExist \<or> e = MultipleObjectsReturned"
  by (auto simp: orm_get_def split: list.splits)

lemma get_question_or_404_Inl: "wf_db d \<Longrightarrow> get_question_or_404 d k = Inl e \<Longrightarrow> e = Http404"
  using orm_get_unique_key [of qid "questions d" k "\<lambda>_. True"]
  by (auto simp: get_question_or_404_def wf_db_def split: sum.splits exc.splits dest: orm_get_Inl)

lemma choice_set_get_Inl: "wf_db d \<Longrightarrow> choice_set_get d q k = Inl e \<Longrightarrow> e = DoesNotExist"
  using orm_get_unique_key [of cid "choices d" k "\<lambda>c. choice_question c = qid q"]
  by (auto simp: choice_set_get_def wf_db_def conj_commute dest: orm_get_Inl)

lemma get_question_or_404_found:
  "wf_db d \<Longrightarrow> q \<in> set (questions d) \<Longrightarrow> get_question_or_404 d (qid q) = Inr q"
  using orm_get_single [of qid "questions d" q "\<lambda>_. True"]
  by (simp add: get_question_or_404_def wf_db_def)

lemma get_question_or_404_missing:
  "k \<notin> qid ` set (questions d) \<Longrightarrow> get_question_or_404 d k = Inl Http404"
proof -
  assume "k \<notin> qid ` set (questions d)"
  then have "orm_get (\<lambda>q. qid q = k) (questions d) = Inl DoesNotExist"
    by (intro orm_get_none) auto
  then show ?thesis by (simp add: get_question_or_404_def)
qed

lemma get_question_or_404_Http404:
  "get_question_or_404 d k = Inl Http404 \<longleftrightarrow> k \<notin> qid ` set (questions d)"
proof
  assume "get_question_or_404 d k = Inl Http404"
  then have "filter (\<lambda>q. qid q = k) (questions d) = []"
    by (auto simp: get_question_or_404_def orm_get_def split: list.splits sum.splits exc.splits)
  then show "k \<notin> qid ` set (questions d)" by (auto simp: filter_empty_conv)
qed (rule get_question_or_404_missing)

lemma choice_set_get_not_Http404: "choice_set_get d q k \<noteq> Inl Http404"
  using orm_get_Inl by (fastforce simp: choice_set_get_def)

lemma get_question_or_404_Inr: "get_question_or_404 d k = Inr q \<Longrightarrow> q \<in> set (questions d)"
  by (auto simp: get_question_or_404_def dest: orm_get_Inr split: sum.splits exc.splits)

lemma choice_set_get_found:
  "wf_db d \<Longrightarrow> c \<in> set (choices d) \<Longrightarrow> choice_question c = qid q \<Longrightarrow>
   choice_set_get d q (cid c) = Inr c"
proof -
  assume "wf_db d" "c \<in> set (choices d)" "choice_question c = qid q"
  then have "orm_get (\<lambda>x. cid x = cid c \<and> choice_question x = qid q) (choices d) = Inr c"
    by (intro orm_get_single) (auto simp: wf_db_def)
  then show ?thesis
    by (simp add: choice_set_get_def conj_commute)
qed

lemma choice_set_get_missing:
  "\<not> (\<exists>c\<in>set (choices d). choice_question c = qid q \<and> cid c = k) \<Longrightarrow>
   choice_set_get d q k = Inl DoesNotExist"
  by (simp add: choice_set_get_def orm_get_none)

lemma choice_set_get_Inr:
  "choice_set_get d q k = Inr c \<Longrightarrow> c \<in> set (choices d) \<and> choice_question c = qid q \<and> cid c = k"
  by (auto simp: choice_set_get_def dest: orm_get_Inr)

lemma wf_empty_db: "wf_db empty_db"
  by (simp add: wf_db_def empty_db_def)

lemma wf_question_objects_create:
  "wf_db d \<Longrightarrow> wf_db (snd (question_objects_create d txt t))"
  by (auto simp: wf_db_def question_objects_create_def Let_def list_all_iff)

lemma wf_create_choice:
  assumes wf: "wf_db d" and cr: "create_choice d k txt = Inr (c, d')"
  shows "wf_db d'"
proof -
  from cr have k: "k \<in> set (map qid (questions d))"
    and c: "c = \<lparr>cid = next_cid d, choice_question = k, choice_text = txt, votes = 0\<rparr>"
    and d': "d' = d\<lparr>choices := choices d @ [c], next_cid := next_cid d + 1\<rparr>"
    by (auto simp: create_choice_def Let_def split: if_splits)
  from wf have "next_cid d \<notin> set (map cid (choices d))"
    by (auto simp: wf_db_def list_all_iff)
  with wf k show ?thesis
    by (auto simp: d' c wf_db_def list_all_iff)
qed

lemma wf_save_choice:
  assumes "wf_db d" and "cid c \<in> set (map cid (choices d))"
    and "choice_question c \<in> set (map qid (questions d))" and "0 \<le> votes c"
  shows "wf_db (save_choice d c)"
proof -
  have "x \<in> set (replace_key cid c (choices d)) \<Longrightarrow>
        choice_question x \<in> set (map qid (questions d)) \<and> 0 \<le> votes x \<and> cid x < next_cid d" for x
    using assms by (auto simp: wf_db_def list_all_iff dest!: set_replace_key_mem)
  with assms(1,2) show ?thesis
    by (simp add: wf_db_def save_choice_def list_all_iff)
qed

lemma find_save_choice:
  "find (\<lambda>x. cid x = k) (choices (save_choice d c)) =
     (if k = cid c then Some c else find (\<lambda>x. cid x = k) (choices d))"
proof (cases "cid c \<in> set (map cid (choices d))")
  case True
  then show ?thesis by (auto simp: save_choice_def find_replace_key)
next
  case False
  then have "find (\<lambda>x. cid x = cid c) (choices d) = None" by (rule find_key_absent)
  with False show ?thesis by (auto simp: save_choice_def find_snoc split: option.splits)
qed

lemma tally_save_choice: "tally (save_choice d c) = (tally d)(cid c \<mapsto> votes c)"
  by (auto simp: tally_def find_save_choice)

lemma owner_save_choice: "owner (save_choice d c) = (owner d)(cid c \<mapsto> choice_question c)"
  by (auto simp: owner_def find_save_choice)

lemma tally_wf: "wf_db d \<Longrightarrow> c \<in> set (choices d) \<Longrightarrow> tally d (cid c) = Some (votes c)"
  by (simp add: tally_def wf_db_def find_key_distinct)

lemma choice_in_save_choice:
  "c \<in> set (choices d) \<Longrightarrow> cid c' = cid c \<Longrightarrow> c' \<in> set (choices (save_choice d c'))"
  by (auto simp: save_choice_def intro: replace_key_hit)

lemma save_choice_idem:
  "cid c \<in> set (map cid (choices d)) \<Longrightarrow> save_choice (save_choice d c) c = save_choice d c"
  by (simp add: save_choice_def replace_key_idem)

lemma questions_save_choice [simp]: "questions (save_choice d c) = questions d"
  by (simp add: save_choice_def)

lemma wf_db_choice:
  "wf_db d \<Longrightarrow> c \<in> set (choices d) \<Longrightarrow>
   choice_question c \<in> set (map qid (questions d)) \<and> 0 \<le> votes c"
  by (auto simp: wf_db_def list_all_iff)

end
