(* ===== verification/Polls_PyInt.thy ===== *)
theory Polls_PyInt
  imports Polls_Prelude
begin

text \<open>
  The two conversions between Python integers and strings that the views perform:
  \<open>str(n)\<close> (the f-string of the \<open>results\<close> view and of the URLs) and \<open>int(s)\<close>,
  which Django applies to the posted \<open>choice\<close> value when it prepares the lookup
  \<open>choice_set.get(pk=...)\<close> (\<open>IntegerField.get_prep_value\<close>). \<open>int(s)\<close> is modelled
  as CPython 3.11 computes it on an ASCII \<open>str\<close>: the whitespace \<open>Py_ISSPACE\<close> knows
  (tab, line feed, vertical tab, form feed, carriage return, space) is stripped, then one
  optional sign and decimal digits with single underscores between them, at most
  \<open>sys.int_info.default_max_str_digits\<close> = 4300 digits; anything else is
  \<open>ValueError\<close>, here \<open>None\<close>. Strings are byte lists. Text with a non-ASCII character
  is outside the model (Python would read Unicode digits and spaces there); the model
  answers \<open>None\<close> for it, and the claims that depend on a \<open>None\<close> assume ASCII text
  (\<open>ascii_string\<close>).
\<close>

definition digit_char :: "nat \<Rightarrow> char" where
  "digit_char d = char_of (48 + d)"

fun str_of_nat :: "nat \<Rightarrow> string" where
  "str_of_nat n =
     (if n < 10 then [digit_char n] else str_of_nat (n div 10) @ [digit_char (n mod 10)])"

declare str_of_nat.simps [simp del]

definition str_of_int :: "int \<Rightarrow> string" where
  "str_of_int i = (if i < 0 then CHR ''-'' # str_of_nat (nat (- i)) else str_of_nat (nat i))"

definition is_digit :: "char \<Rightarrow> bool" where
  "is_digit c \<longleftrightarrow> 48 \<le> (of_char c :: nat) \<and> (of_char c :: nat) \<le> 57"

text \<open>
  The whitespace \<open>int()\<close> strips from an ASCII \<open>str\<close> (\<open>Py_ISSPACE\<close> in
  \<open>PyLong_FromString\<close>): not the separators 28-31 that \<open>str.isspace\<close> also admits.
\<close>

definition py_space :: "char \<Rightarrow> bool" where
  "py_space c \<longleftrightarrow> (of_char c :: nat) \<in> {9, 10, 11, 12, 13, 32}"

definition ascii_string :: "string \<Rightarrow> bool" where
  "ascii_string s \<longleftrightarrow> list_all (\<lambda>c. (of_char c :: nat) < 128) s"

text \<open>\<open>sys.int_info.default_max_str_digits\<close>: longer decimal numerals are \<open>ValueError\<close>.\<close>

definition int_max_str_digits :: nat where
  "int_max_str_digits = 4300"

definition strip_ws :: "string \<Rightarrow> string" where
  "strip_ws s = rev (dropWhile py_space (rev (dropWhile py_space s)))"

fun no_double_underscore :: "string \<Rightarrow> bool" where
  "no_double_underscore (a # b # r) =
     ((a \<noteq> CHR ''_'' \<or> b \<noteq> CHR ''_'') \<and> no_double_underscore (b # r))"
| "no_double_underscore _ = True"

definition digits_ok :: "string \<Rightarrow> bool" where
  "digits_ok ds \<longleftrightarrow> ds \<noteq> [] \<and> is_digit (hd ds) \<and> is_digit (last ds) \<and>
     list_all (\<lambda>c. is_digit c \<or> c = CHR ''_'') ds \<and> no_double_underscore ds"

definition digits_value :: "string \<Rightarrow> nat" where
  "digits_value ds = foldl (\<lambda>acc c. 10 * acc + (of_char c - 48)) 0 ds"

definition parse_digits :: "string \<Rightarrow> int option" where
  "parse_digits ds =
     (if digits_ok ds \<and> length (filter is_digit ds) \<le> int_max_str_digits
      then Some (int (digits_value (filter (\<lambda>c. c \<noteq> CHR ''_'') ds)))
      else None)"

definition python_int :: "string \<Rightarrow> int option" where
  "python_int s =
     (case strip_ws s of
        [] \<Rightarrow> None
      | c # r \<Rightarrow>
          if c = CHR ''-'' then map_option uminus (parse_digits r)
          else if c = CHR ''+'' then parse_digits r
          else parse_digits (c # r))"

text \<open>An integer whose decimal text has at most 4300 digits, which \<open>int()\<close> reads back.\<close>

definition fits_int_str :: "int \<Rightarrow> bool" where
  "fits_int_str i \<longleftrightarrow> length (str_of_nat (nat \<bar>i\<bar>)) \<le> int_max_str_digits"

lemma is_digit_digit_char: "d < 10 \<Longrightarrow> is_digit (digit_char d)"
  by (simp add: is_digit_def digit_char_def)

lemma of_char_digit_char: "d < 10 \<Longrightarrow> of_char (digit_char d) = 48 + d"
  by (simp add: digit_char_def)

lemma str_of_nat_digits: "list_all is_digit (str_of_nat n) \<and> str_of_nat n \<noteq> []"
proof (induction n rule: str_of_nat.induct)
  case (1 n)
  show ?case
  proof (cases "n < 10")
    case True
    then show ?thesis by (simp add: str_of_nat.simps [of n] is_digit_digit_char)
  next
    case False
    with "1.IH" show ?thesis by (simp add: str_of_nat.simps [of n] is_digit_digit_char)
  qed
qed

lemma str_of_nat_no_underscore: "CHR ''_'' \<notin> set (str_of_nat n)"
  using str_of_nat_digits [of n] by (auto simp: list_all_iff is_digit_def)

lemma digits_value_snoc: "digits_value (xs @ [c]) = 10 * digits_value xs + (of_char c - 48)"
  by (simp add: digits_value_def)

lemma digits_value_str_of_nat: "digits_value (str_of_nat n) = n"
proof (induction n rule: str_of_nat.induct)
  case (1 n)
  show ?case
  proof (cases "n < 10")
    case True
    then show ?thesis
      by (subst str_of_nat.simps) (simp add: digits_value_def of_char_digit_char)
  next
    case False
    with "1.IH" have "digits_value (str_of_nat (n div 10)) = n div 10" by simp
    with False show ?thesis
      by (subst str_of_nat.simps) (simp add: digits_value_snoc of_char_digit_char)
  qed
qed

lemma no_double_underscore_free: "CHR ''_'' \<notin> set ds \<Longrightarrow> no_double_underscore ds"
  by (induction ds rule: no_double_underscore.induct) auto

lemma digits_ok_str_of_nat: "digits_ok (str_of_nat n)"
proof -
  have d: "list_all is_digit (str_of_nat n)" and ne: "str_of_nat n \<noteq> []"
    using str_of_nat_digits by blast+
  then have "is_digit (hd (str_of_nat n))" and "is_digit (last (str_of_nat n))"
    by (auto simp: list_all_iff)
  with d ne show ?thesis
    by (auto simp: digits_ok_def list_all_iff no_double_underscore_free str_of_nat_no_underscore)
qed

lemma parse_digits_str_of_nat:
  "length (str_of_nat n) \<le> int_max_str_digits \<Longrightarrow> parse_digits (str_of_nat n) = Some (int n)"
proof -
  assume len: "length (str_of_nat n) \<le> int_max_str_digits"
  have "filter (\<lambda>c. c \<noteq> CHR ''_'') (str_of_nat n) = str_of_nat n"
    using str_of_nat_no_underscore by (auto simp: filter_id_conv)
  moreover have "filter is_digit (str_of_nat n) = str_of_nat n"
    using str_of_nat_digits [of n] by (simp add: filter_id_conv list_all_iff)
  ultimately show ?thesis
    using len by (simp add: parse_digits_def digits_ok_str_of_nat digits_value_str_of_nat)
qed

lemma not_py_space_digit: "is_digit c \<Longrightarrow> \<not> py_space c"
  by (auto simp: is_digit_def py_space_def)

lemma strip_ws_id:
  assumes "s \<noteq> []" "\<not> py_space (hd s)" "\<not> py_space (last s)"
  shows "strip_ws s = s"
proof -
  have "dropWhile py_space s = s" using assms by (simp add: dropWhile_hd_keep)
  moreover have "dropWhile py_space (rev s) = rev s"
    using assms by (simp add: dropWhile_hd_keep hd_rev)
  ultimately show ?thesis by (simp add: strip_ws_def)
qed

lemma str_of_nat_hd_last: "is_digit (hd (str_of_nat n)) \<and> is_digit (last (str_of_nat n))"
  using str_of_nat_digits [of n] by (auto simp: list_all_iff)

text \<open>
  \<open>int(str(n)) == n\<close>: the printed form of every integer of at most 4300 digits parses
  back to it.
\<close>

theorem python_int_str_of_int: "fits_int_str i \<Longrightarrow> python_int (str_of_int i) = Some i"
proof (cases "i < 0")
  case True
  let ?s = "CHR ''-'' # str_of_nat (nat (- i))"
  have "strip_ws ?s = ?s"
    using str_of_nat_hd_last [of "nat (- i)"] str_of_nat_digits [of "nat (- i)"]
    by (intro strip_ws_id) (auto simp: not_py_space_digit, simp add: py_space_def)
  moreover assume "fits_int_str i"
  ultimately show ?thesis using True
    by (simp add: python_int_def str_of_int_def parse_digits_str_of_nat fits_int_str_def)
next
  case False
  let ?s = "str_of_nat (nat i)"
  have ne: "?s \<noteq> []" using str_of_nat_digits by blast
  have "strip_ws ?s = ?s"
    using str_of_nat_hd_last [of "nat i"] ne by (intro strip_ws_id) (auto simp: not_py_space_digit)
  moreover obtain c r where cr: "?s = c # r" using ne by (cases ?s) auto
  moreover have "is_digit c" using str_of_nat_hd_last [of "nat i"] cr by simp
  then have "c \<noteq> CHR ''-''" "c \<noteq> CHR ''+''" by (auto simp: is_digit_def)
  moreover assume "fits_int_str i"
  ultimately show ?thesis using False parse_digits_str_of_nat [of "nat i", unfolded cr]
    by (simp add: python_int_def str_of_int_def fits_int_str_def cr)
qed

lemma python_int_examples_accept: "python_int '' +0_42\<newline>'' = Some 42"
  by code_simp
lemma python_int_examples_reject: "python_int ''4 2'' = None \<and> python_int ''1__0'' = None \<and> python_int ''abc'' = None \<and> python_int [] = None"
  by code_simp
lemma python_int_examples_separator: "python_int [CHR 0x1C, CHR ''1''] = None \<and> python_int [CHR 0x0B, CHR ''1'', CHR 0x0C] = Some 1"
  by code_simp

lemma fits_int_str_digit: "0 \<le> i \<Longrightarrow> i < 10 \<Longrightarrow> fits_int_str i"
proof -
  assume "0 \<le> i" "i < 10"
  then have "nat \<bar>i\<bar> < 10" by linarith
  then show ?thesis
    by (simp add: fits_int_str_def int_max_str_digits_def str_of_nat.simps [of "nat \<bar>i\<bar>"])
qed
end
