(* ===== verification/Polls_Views.thy ===== *)
theory Polls_Views
  imports Polls_Store Polls_PyInt
begin

text \<open>
  The four views of \<open>polls/views.py\<close>. A view takes the database (and, for
  \<open>vote\<close>, the POST data) and returns the HTTP response; \<open>vote\<close> also returns the
  database after its writes. A response is a rendered template with its context, a
  redirect, a plain \<open>HttpResponse\<close>, the 404 page (\<open>Http404\<close> raised) or a server
  error carrying the uncaught exception (HTTP 500). Template rendering itself is not
  modelled; the context handed to the template is. URL routing is in \<open>Polls_Urls\<close>.
\<close>

datatype view_context =
    IndexCtx "question list" \<comment> \<open>the key \<open>latest_question_list\<close>\<close>
  | DetailCtx question "string option" \<comment> \<open>the keys \<open>question\<close> and \<open>error_message\<close>\<close>

datatype response =
    Render string view_context
  | Redirect string
  | PlainText string
  | NotFound
  | ServerError exc

text \<open>How Django answers an exception that leaves the view.\<close>

definition raise_response :: "exc \<Rightarrow> response" where
  "raise_response e = (case e of Http404 \<Rightarrow> NotFound | _ \<Rightarrow> ServerError e)"

text \<open>
  \<open>request.POST[k]\<close> on a \<open>QueryDict\<close>: the last value posted under \<open>k\<close>;
  a missing key raises \<open>MultiValueDictKeyError\<close>, a \<open>KeyError\<close>.
\<close>

type_synonym post_data = "(string \<times> string) list"

definition post_getitem :: "post_data \<Rightarrow> string \<Rightarrow> exc + string" where
  "post_getitem p k =
     (case filter (\<lambda>kv. fst kv = k) p of
        [] \<Rightarrow> Inl KeyError
      | kvs \<Rightarrow> Inr (snd (last kvs)))"

subsection \<open>\<open>index\<close>, \<open>detail\<close>, \<open>results\<close>\<close>

definition index :: "db \<Rightarrow> response" where
  "index d =
     (let latest_question_list = objects_all d
      in Render ''polls/index.html'' (IndexCtx latest_question_list))"

definition detail :: "db \<Rightarrow> pk \<Rightarrow> response" where
  "detail d question_id =
     (case get_question_or_404 d question_id of
        Inl e \<Rightarrow> raise_response e
      | Inr question \<Rightarrow> Render ''polls/detail.html'' (DetailCtx question None))"

text \<open>The f-string of \<open>results\<close>; its \<open>\<ugrave>\<close> is the two UTF-8 bytes C3 B9.\<close>

definition results :: "pk \<Rightarrow> response" where
  "results question_id =
     PlainText (''Estas viendo los resultado de la pregunta n'' @ [CHR 0xC3, CHR 0xB9] @
                ''mero '' @ str_of_int question_id)"

subsection \<open>\<open>reverse\<close> of \<open>polls:results\<close>\<close>

text \<open>
  The value passed as \<open>args\<close>: \<open>(question.id)\<close> in Python is the integer itself, not a
  one-element tuple (that would be \<open>(question.id,)\<close>). Django's \<open>reverse\<close> starts with
  \<open>args = args or []\<close> and then calls \<open>_reverse_with_prefix(view, prefix, *args)\<close>:
  a non-zero integer cannot be unpacked (\<open>TypeError\<close>); zero is falsy and becomes the
  empty argument list, which the pattern \<open><int:question_id>/results/\<close> does not accept
  (\<open>NoReverseMatch\<close>); so does a negative number, which the \<open>int\<close> converter's
  \<open>[0-9]+\<close> rejects.
\<close>

datatype py_args = ArgInt int | ArgTuple "int list"

definition results_url :: "pk \<Rightarrow> string" where
  "results_url k = ''/polls/'' @ str_of_int k @ ''/results/''"

definition reverse_results :: "py_args \<Rightarrow> exc + string" where
  "reverse_results a =
     (case a of
        ArgInt n \<Rightarrow> if n = 0 then Inl NoReverseMatch else Inl TypeError
      | ArgTuple [n] \<Rightarrow> if 0 \<le> n then Inr (results_url n) else Inl NoReverseMatch
      | ArgTuple _ \<Rightarrow> Inl NoReverseMatch)"

subsection \<open>\<open>vote\<close>\<close>

definition no_choice_msg :: string where
  "no_choice_msg = ''No elegiste un respuesta''"

text \<open>
  \<open>question.choice_set.get(pk=request.POST[...])\<close> with the key \<open>choice\<close>: the key lookup, Django's
  \<open>int()\<close> of the posted text (a \<open>ValueError\<close> when it is not a number), the query.
\<close>

definition selected_choice_get :: "db \<Rightarrow> question \<Rightarrow> post_data \<Rightarrow> exc + choice" where
  "selected_choice_get d question post =
     (case post_getitem post ''choice'' of
        Inl e \<Rightarrow> Inl e
      | Inr v \<Rightarrow>
          (case python_int v of
             None \<Rightarrow> Inl ValueError
           | Some k \<Rightarrow> choice_set_get d question k))"

definition vote :: "db \<Rightarrow> pk \<Rightarrow> post_data \<Rightarrow> response \<times> db" where
  "vote d question_id post =
     (case get_question_or_404 d question_id of
        Inl e \<Rightarrow> (raise_response e, d)
      | Inr question \<Rightarrow>
          (case selected_choice_get d question post of
             Inl e \<Rightarrow>
               if e = KeyError \<or> e = DoesNotExist
               then (Render ''polls/detail.html'' (DetailCtx question (Some no_choice_msg)), d)
               else (raise_response e, d)
           | Inr selected_choice \<Rightarrow>
               (let selected_choice = selected_choice\<lparr>votes := votes selected_choice + 1\<rparr>;
                    d' = save_choice d selected_choice
                in case reverse_results (ArgInt (qid question)) of
                     Inl e \<Rightarrow> (raise_response e, d')
                   | Inr url \<Rightarrow> (Redirect url, d'))))"

subsection \<open>The state-changing operations of the app\<close>

text \<open>
  Every write the app makes to the database: questions created (by the admin or by
  \<open>create_question\<close> of \<open>tests.py\<close>), choices created, votes. A failed
  \<open>Choice.objects.create\<close> rolls back and leaves the database as it was.
\<close>

datatype db_op =
    OpCreateQuestion string timestamp
  | OpCreateChoice pk string
  | OpVote pk post_data

fun app_step :: "db \<Rightarrow> db_op \<Rightarrow> db" where
  "app_step d (OpCreateQuestion txt t) = snd (question_objects_create d txt t)"
| "app_step d (OpCreateChoice k txt) = (case create_choice d k txt of Inl _ \<Rightarrow> d | Inr (_, d') \<Rightarrow> d')"
| "app_step d (OpVote k p) = snd (vote d k p)"

fun run_ops :: "db \<Rightarrow> db_op list \<Rightarrow> db" where
  "run_ops d [] = d"
| "run_ops d (op # ops) = run_ops (app_step d op) ops"

text \<open>A fixture for the witnesses: the specification's example of a choice with 5 votes.\<close>

definition demo_q :: question where
  "demo_q = \<lparr>qid = 1, question_text = ''What is new?'', pub_date = - timedelta_days 10\<rparr>"

definition demo_c1 :: choice where
  "demo_c1 = \<lparr>cid = 1, choice_question = 1, choice_text = ''Not much'', votes = 5\<rparr>"

definition demo_db :: db where
  "demo_db =
     \<lparr>questions = [demo_q],
      choices = [demo_c1, \<lparr>cid = 2, choice_question = 1, choice_text = ''The sky'', votes = 0\<rparr>],
      next_qid = 2, next_cid = 3\<rparr>"

declare index_def [polls_defs] detail_def [polls_defs] raise_response_def [polls_defs]

subsection \<open>Lemmas on the views\<close>

lemma raise_response_not_redirect: "raise_response e \<noteq> Redirect url"
  by (cases e) (simp_all add: raise_response_def)

lemma raise_response_NotFound: "raise_response e = NotFound \<longleftrightarrow> e = Http404"
  by (cases e) (simp_all add: raise_response_def)

lemma selected_choice_get_not_Http404: "selected_choice_get d q post \<noteq> Inl Http404"
  using choice_set_get_not_Http404 [of d q]
  by (auto simp: selected_choice_get_def post_getitem_def split: list.splits option.splits)

lemma post_getitem_single: "post_getitem [(k, v)] k = Inr v"
  by (simp add: post_getitem_def)

lemma post_getitem_last: "post_getitem (p @ [(k, v)]) k = Inr v"
  by (simp add: post_getitem_def list.case_eq_if)

lemma selected_choice_get_Inr:
  "selected_choice_get d q post = Inr c \<Longrightarrow> c \<in> set (choices d) \<and> choice_question c = qid q"
  by (auto simp: selected_choice_get_def dest: choice_set_get_Inr split: sum.splits option.splits)

lemma selected_choice_get_Inl:
  "wf_db d \<Longrightarrow> selected_choice_get d q post = Inl e \<Longrightarrow> e = KeyError \<or> e = ValueError \<or> e = DoesNotExist"
  by (auto simp: selected_choice_get_def post_getitem_def dest: choice_set_get_Inl split: list.splits option.splits)

text \<open>The branch of \<open>vote\<close> that counts: the save happens, then \<open>reverse\<close> raises.\<close>

lemma vote_selected:
  assumes "wf_db d" "q \<in> set (questions d)" "c \<in> set (choices d)" "choice_question c = qid q"
    and "post_getitem post ''choice'' = Inr s" "python_int s = Some (cid c)"
  shows "vote d (qid q) post =
           (ServerError (if qid q = 0 then NoReverseMatch else TypeError),
            save_choice d (c\<lparr>votes := votes c + 1\<rparr>))"
  using assms
  by (simp add: vote_def get_question_or_404_found selected_choice_get_def choice_set_get_found
      reverse_results_def raise_response_def)

text \<open>A vote leaves the database as it was, or saves one existing choice one vote up.\<close>

lemma vote_db_cases:
  "snd (vote d question_id post) = d \<or>
   (\<exists>c\<in>set (choices d). snd (vote d question_id post) = save_choice d (c\<lparr>votes := votes c + 1\<rparr>))"
  by (auto simp: vote_def Let_def dest: selected_choice_get_Inr split: sum.splits)

lemma wf_vote: "wf_db d \<Longrightarrow> wf_db (snd (vote d question_id post))"
proof -
  assume wf: "wf_db d"
  from vote_db_cases [of d question_id post] show ?thesis
  proof
    assume "snd (vote d question_id post) = d"
    with wf show ?thesis by simp
  next
    assume "\<exists>c\<in>set (choices d). snd (vote d question_id post) = save_choice d (c\<lparr>votes := votes c + 1\<rparr>)"
    then obtain c where c: "c \<in> set (choices d)"
      and eq: "snd (vote d question_id post) = save_choice d (c\<lparr>votes := votes c + 1\<rparr>)" by blast
    from wf_db_choice [OF wf c] have "choice_question c \<in> set (map qid (questions d))" "0 \<le> votes c"
      by simp_all
    with wf c show ?thesis
      unfolding eq by (intro wf_save_choice) auto
  qed
qed

lemma wf_app_step: "wf_db d \<Longrightarrow> wf_db (app_step d op)"
  by (cases op) (auto simp: wf_vote wf_question_objects_create dest: wf_create_choice split: sum.splits)

lemma wf_run_ops_from: "wf_db d \<Longrightarrow> wf_db (run_ops d ops)"
  by (induction ops arbitrary: d) (simp_all add: wf_app_step)

lemma vote_valid_post:
  assumes "wf_db d" "q \<in> set (questions d)" "c \<in> set (choices d)" "choice_question c = qid q"
    and "fits_int_str (cid c)"
  shows "snd (vote d (qid q) [(''choice'', str_of_int (cid c))]) = save_choice d (c\<lparr>votes := votes c + 1\<rparr>)"
  using vote_selected [OF assms(1-4) post_getitem_single python_int_str_of_int [OF assms(5)]] by simp

subsection \<open>Behaviour of the views\<close>

lemma demo_ids [simp]: "qid demo_q = 1" "cid demo_c1 = 1" "votes demo_c1 = 5" "choice_question demo_c1 = 1"
  by (simp_all add: demo_q_def demo_c1_def)

lemma demo_mem: "demo_q \<in> set (questions demo_db)" "demo_c1 \<in> set (choices demo_db)"
  by (simp_all add: demo_db_def)

lemma wf_demo_db: "wf_db demo_db"
  by (simp add: wf_db_def demo_db_def demo_q_def demo_c1_def)

text \<open>
  C1: a vote for an existing choice of an existing question, posted as any text that
  Python's int() reads as the choice's key, saves that choice with exactly one more vote
  and changes no other tally; the response is then the server error raised by reverse().
\<close>

theorem vote_counts_one:
  assumes "wf_db d" "q \<in> set (questions d)" "c \<in> set (choices d)" "choice_question c = qid q"
    and "post_getitem post ''choice'' = Inr s" "python_int s = Some (cid c)"
  shows "fst (vote d (qid q) post) = ServerError (if qid q = 0 then NoReverseMatch else TypeError) \<and>
         tally (snd (vote d (qid q) post)) = (tally d)(cid c \<mapsto> votes c + 1)"
  using vote_selected [OF assms] by (simp add: tally_save_choice)

theorem vote_counts_one_witness:
  "wf_db demo_db \<and> demo_q \<in> set (questions demo_db) \<and> demo_c1 \<in> set (choices demo_db) \<and>
   choice_question demo_c1 = qid demo_q \<and> post_getitem [(''choice'', ''1'')] ''choice'' = Inr ''1'' \<and>
   python_int ''1'' = Some (cid demo_c1) \<and>
   fst (vote demo_db 1 [(''choice'', ''1'')]) = ServerError TypeError \<and>
   tally (snd (vote demo_db 1 [(''choice'', ''1'')])) 1 = Some 6"
proof -
  have p: "python_int ''1'' = Some (cid demo_c1)" by simp code_simp
  have f: "choice_question demo_c1 = qid demo_q" by simp
  note v = vote_counts_one [OF wf_demo_db demo_mem f post_getitem_single p]
  show ?thesis using v wf_demo_db demo_mem f p by (simp add: post_getitem_single)
qed

text \<open>
  C2: the vote view never answers with the redirect to the results page, on any input:
  every path either renders, answers 404, or raises (the redirect line raises before returning).
\<close>

theorem vote_never_redirects: "fst (vote d question_id post) \<noteq> Redirect url"
  by (auto simp: vote_def Let_def reverse_results_def raise_response_not_redirect
      split: sum.splits option.splits if_splits)

text \<open>
  C8: the vote view answers 404 exactly when the question id names no question, on any
  database and with any POST data, and then it writes nothing.
\<close>

theorem vote_question_missing:
  "(fst (vote d question_id post) = NotFound \<longleftrightarrow> question_id \<notin> qid ` set (questions d)) \<and>
   (question_id \<notin> qid ` set (questions d) \<longrightarrow> snd (vote d question_id post) = d)"
  using get_question_or_404_Http404 [of d question_id] selected_choice_get_not_Http404
  by (auto simp: vote_def Let_def raise_response_NotFound reverse_results_def
      split: sum.splits if_splits)

theorem vote_question_missing_witness: "vote demo_db 7 [(''choice'', ''1'')] = (NotFound, demo_db)"
proof -
  have "7 \<notin> qid ` set (questions demo_db)" by (simp add: demo_db_def demo_q_def)
  with vote_question_missing [of demo_db 7 "[(''choice'', ''1'')]"] show ?thesis
    by (metis prod.collapse)
qed

text \<open>
  C10: a vote with no choice key in the POST data re-renders the detail page with the error
  message and writes nothing.
\<close>

theorem vote_no_choice_key:
  assumes "wf_db d" "q \<in> set (questions d)" "post_getitem post ''choice'' = Inl KeyError"
  shows "vote d (qid q) post = (Render ''polls/detail.html'' (DetailCtx q (Some no_choice_msg)), d)"
  using assms by (simp add: vote_def get_question_or_404_found selected_choice_get_def)

theorem vote_no_choice_key_witness:
  "vote demo_db 1 [] = (Render ''polls/detail.html'' (DetailCtx demo_q (Some no_choice_msg)), demo_db)"
proof -
  have "post_getitem [] ''choice'' = Inl KeyError" by (simp add: post_getitem_def)
  from vote_no_choice_key [OF wf_demo_db demo_mem(1) this] show ?thesis by simp
qed

text \<open>
  C9: a vote whose posted choice names no choice of that question (absent, or belonging to
  another question) re-renders the detail page with the error message and writes nothing.
\<close>

theorem vote_invalid_choice:
  assumes "wf_db d" "q \<in> set (questions d)" "post_getitem post ''choice'' = Inr s"
    and "python_int s = Some k"
    and "\<not> (\<exists>c\<in>set (choices d). choice_question c = qid q \<and> cid c = k)"
  shows "vote d (qid q) post = (Render ''polls/detail.html'' (DetailCtx q (Some no_choice_msg)), d)"
  using assms
  by (simp add: vote_def get_question_or_404_found selected_choice_get_def choice_set_get_missing)

theorem vote_invalid_choice_witness:
  "vote demo_db 1 [(''choice'', ''3'')] =
     (Render ''polls/detail.html'' (DetailCtx demo_q (Some no_choice_msg)), demo_db)"
proof -
  have p: "python_int ''3'' = Some 3" by code_simp
  have "\<not> (\<exists>c\<in>set (choices demo_db). choice_question c = qid demo_q \<and> cid c = 3)"
    by (simp add: demo_db_def demo_c1_def)
  from vote_invalid_choice [OF wf_demo_db demo_mem(1) post_getitem_single p this] show ?thesis by simp
qed

text \<open>
  C11: a vote whose posted choice is ASCII text that Python's int() refuses (not an integer
  literal, or one of more than 4300 digits) escapes the view as a ValueError (HTTP 500),
  writing nothing.
\<close>

theorem vote_malformed_choice:
  assumes "wf_db d" "q \<in> set (questions d)" "post_getitem post ''choice'' = Inr s"
    and "ascii_string s" "python_int s = None"
  shows "vote d (qid q) post = (ServerError ValueError, d)"
  using assms
  by (simp add: vote_def get_question_or_404_found selected_choice_get_def raise_response_def)

theorem vote_malformed_choice_witness:
  "vote demo_db 1 [(''choice'', ''one'')] = (ServerError ValueError, demo_db)"
proof -
  have "ascii_string ''one''" by code_simp
  moreover have "python_int ''one'' = None" by code_simp
  ultimately show ?thesis using vote_malformed_choice [OF wf_demo_db demo_mem(1) post_getitem_single] by simp
qed

text \<open>
  C5: on a well-formed database a vote changes no question, and either leaves every tally
  as it was or raises exactly one existing tally by one.
\<close>

theorem vote_tally_effect:
  assumes "wf_db d"
  shows "questions (snd (vote d question_id post)) = questions d \<and>
         (tally (snd (vote d question_id post)) = tally d \<or>
          (\<exists>k v. tally d k = Some v \<and> tally (snd (vote d question_id post)) = (tally d)(k \<mapsto> v + 1)))"
  using vote_db_cases [of d question_id post]
proof
  assume "snd (vote d question_id post) = d"
  then show ?thesis by simp
next
  assume "\<exists>c\<in>set (choices d). snd (vote d question_id post) = save_choice d (c\<lparr>votes := votes c + 1\<rparr>)"
  then obtain c where c: "c \<in> set (choices d)"
    and eq: "snd (vote d question_id post) = save_choice d (c\<lparr>votes := votes c + 1\<rparr>)" by blast
  have "tally d (cid c) = Some (votes c)" using assms c by (rule tally_wf)
  then show ?thesis unfolding eq by (auto simp: tally_save_choice)
qed

theorem vote_tally_effect_witness:
  "questions (snd (vote demo_db 1 [(''choice'', ''2'')])) = questions demo_db \<and>
   (tally (snd (vote demo_db 1 [(''choice'', ''2'')])) = tally demo_db \<or>
    (\<exists>k v. tally demo_db k = Some v \<and>
       tally (snd (vote demo_db 1 [(''choice'', ''2'')])) = (tally demo_db)(k \<mapsto> v + 1)))"
  by (rule vote_tally_effect [OF wf_demo_db])

text \<open>
  C6: every database the app can build from the empty one, by any sequence of question
  creations, choice creations and votes, is well formed (unique keys, valid foreign keys,
  non-negative counters).
\<close>

theorem wf_run_ops: "wf_db (run_ops empty_db ops)"
  by (rule wf_run_ops_from [OF wf_empty_db])

text \<open>
  C7: n votes for the same valid choice, one after another, each posting the choice's key
  as \<open>str()\<close> prints it, raise its tally by exactly n, for every key that Python's
  int() accepts back (at most 4300 digits: a longer numeral is refused with a ValueError).
\<close>

theorem run_ops_counts:
  assumes "wf_db d" "q \<in> set (questions d)" "c \<in> set (choices d)" "choice_question c = qid q"
    and "fits_int_str (cid c)"
  shows "tally (run_ops d (replicate n (OpVote (qid q) [(''choice'', str_of_int (cid c))]))) (cid c) =
           Some (votes c + int n)"
  using assms
proof (induction n arbitrary: d c)
  case 0
  then show ?case by (simp add: tally_wf)
next
  case (Suc n)
  let ?c' = "c\<lparr>votes := votes c + 1\<rparr>"
  let ?d' = "snd (vote d (qid q) [(''choice'', str_of_int (cid c))])"
  have d': "?d' = save_choice d ?c'" using vote_valid_post [OF Suc.prems] .
  have "wf_db ?d'" using Suc.prems(1) by (rule wf_vote)
  moreover have "q \<in> set (questions ?d')" using Suc.prems(2) by (simp add: d')
  moreover have "?c' \<in> set (choices ?d')" using Suc.prems(3) by (simp add: d' choice_in_save_choice)
  moreover have "choice_question ?c' = qid q" using Suc.prems(4) by simp
  moreover have "fits_int_str (cid ?c')" using Suc.prems(5) by simp
  ultimately have "tally (run_ops ?d' (replicate n (OpVote (qid q) [(''choice'', str_of_int (cid ?c'))]))) (cid ?c') =
      Some (votes ?c' + int n)" by (rule Suc.IH)
  then show ?case by simp
qed

theorem run_ops_counts_witness:
  "tally (run_ops demo_db (replicate 3 (OpVote 1 [(''choice'', str_of_int 1)]))) 1 = Some 8"
proof -
  have "fits_int_str (cid demo_c1)" by (simp add: fits_int_str_digit)
  from run_ops_counts [OF wf_demo_db demo_mem _ this, of 3] show ?thesis by simp
qed

text \<open>
  C14: the index lists every stored question, also one whose publication date is still in
  the future, that is one that is not visible.
\<close>

theorem index_shows_future:
  assumes "q \<in> set (questions d)" and "now < pub_date q"
  shows "\<exists>qs. index d = Render ''polls/index.html'' (IndexCtx qs) \<and> q \<in> set qs \<and> \<not> is_visible q now"
  using assms by (simp add: index_def objects_all_def is_visible_def)

theorem index_shows_future_witness:
  "\<exists>qs. index (snd (question_objects_create empty_db ''Future question'' (timedelta_days 30)))
      = Render ''polls/index.html'' (IndexCtx qs) \<and>
    fst (question_objects_create empty_db ''Future question'' (timedelta_days 30)) \<in> set qs \<and>
    \<not> is_visible (fst (question_objects_create empty_db ''Future question'' (timedelta_days 30))) 0"
  by (rule index_shows_future) (simp_all add: question_objects_create_def empty_db_def timedelta_days_def day_def Let_def)

text \<open>
  C15: the detail view renders every stored question, whatever its publication date.
\<close>

theorem detail_found:
  "wf_db d \<Longrightarrow> q \<in> set (questions d) \<Longrightarrow> detail d (qid q) = Render ''polls/detail.html'' (DetailCtx q None)"
  by (simp add: detail_def get_question_or_404_found)

theorem detail_found_witness: "detail demo_db 1 = Render ''polls/detail.html'' (DetailCtx demo_q None)"
  using detail_found [OF wf_demo_db demo_mem(1)] by simp

text \<open>
  C16: the detail view answers 404 exactly when the question id names no question, on
  any database.
\<close>

theorem detail_missing: "detail d question_id = NotFound \<longleftrightarrow> question_id \<notin> qid ` set (questions d)"
  using get_question_or_404_Http404 [of d question_id]
  by (auto simp: detail_def raise_response_NotFound split: sum.splits)

theorem detail_missing_witness: "detail demo_db 2 = NotFound"
  using detail_missing [of demo_db 2] by (simp add: demo_db_def)

lemma tally_choices_snoc:
  "tally d k = Some v \<Longrightarrow> tally (d\<lparr>choices := choices d @ [c], next_cid := n\<rparr>) k = Some v"
  by (auto simp: tally_def find_snoc split: option.splits)

lemma app_step_tally_mono:
  assumes wf: "wf_db d" and t: "tally d k = Some v"
  shows "\<exists>v'. tally (app_step d oper) k = Some v' \<and> v \<le> v'"
proof (cases oper)
  case (OpCreateQuestion qt tm)
  then have "tally (app_step d oper) k = tally d k"
    by (simp add: question_objects_create_def Let_def tally_def)
  with t show ?thesis by simp
next
  case (OpCreateChoice q ct)
  with t show ?thesis
    by (auto simp: create_choice_def Let_def tally_choices_snoc split: sum.splits if_splits)
next
  case (OpVote question_id post)
  from vote_db_cases [of d question_id post] show ?thesis
  proof
    assume "snd (vote d question_id post) = d"
    with OpVote t show ?thesis by simp
  next
    assume "\<exists>c\<in>set (choices d). snd (vote d question_id post) = save_choice d (c\<lparr>votes := votes c + 1\<rparr>)"
    then obtain c where c: "c \<in> set (choices d)"
      and eq: "snd (vote d question_id post) = save_choice d (c\<lparr>votes := votes c + 1\<rparr>)" by blast
    have "tally d (cid c) = Some (votes c)" using wf c by (rule tally_wf)
    with t OpVote eq show ?thesis by (auto simp: tally_save_choice)
  qed
qed

text \<open>
  C17: run one operation after another (no concurrency), the app never lowers a vote
  counter: the specification's invariant that counters are non-decreasing holds for every
  sequence of question creations, choice creations and votes.
\<close>

theorem run_ops_tally_monotone:
  assumes "wf_db d" and "tally d k = Some v"
  shows "\<exists>v'. tally (run_ops d ops) k = Some v' \<and> v \<le> v'"
  using assms
proof (induction ops arbitrary: d v)
  case Nil
  then show ?case by simp
next
  case (Cons oper ops)
  from app_step_tally_mono [OF Cons.prems] obtain v1 where
    v1: "tally (app_step d oper) k = Some v1" "v \<le> v1" by blast
  have "wf_db (app_step d oper)" using Cons.prems(1) by (rule wf_app_step)
  from Cons.IH [OF this v1(1)] v1(2) show ?case by auto
qed

theorem run_ops_tally_monotone_witness:
  "\<exists>v'. tally (run_ops demo_db [OpVote 1 [(''choice'', ''1'')], OpCreateChoice 1 ''Other'', OpVote 1 []]) 1 = Some v' \<and>
     5 \<le> v'"
proof -
  have "tally demo_db 1 = Some 5" using tally_wf [OF wf_demo_db demo_mem(2)] by simp
  then show ?thesis by (rule run_ops_tally_monotone [OF wf_demo_db])
qed

text \<open>
  C18: on a well-formed database the vote view answers in one of five ways only: 404,
  the re-rendered form with the error message, or a server error carrying ValueError (a
  non-numeric choice), TypeError or NoReverseMatch (the failing reverse() after a save).
  In particular the ORM lookups never raise MultipleObjectsReturned.
\<close>

theorem vote_outcomes:
  assumes "wf_db d"
  shows "fst (vote d question_id post) = NotFound \<or>
         fst (vote d question_id post) = ServerError ValueError \<or>
         fst (vote d question_id post) = ServerError TypeError \<or>
         fst (vote d question_id post) = ServerError NoReverseMatch \<or>
         (\<exists>q. fst (vote d question_id post) = Render ''polls/detail.html'' (DetailCtx q (Some no_choice_msg)))"
proof (cases "get_question_or_404 d question_id")
  case (Inl e)
  then have "e = Http404" by (rule get_question_or_404_Inl [OF assms])
  with Inl show ?thesis by (simp add: vote_def raise_response_def)
next
  case (Inr q)
  show ?thesis
  proof (cases "selected_choice_get d q post")
    case (Inl e)
    then have "e = KeyError \<or> e = ValueError \<or> e = DoesNotExist"
      by (rule selected_choice_get_Inl [OF assms])
    with Inr Inl show ?thesis by (auto simp: vote_def raise_response_def)
  next
    case (Inr c)
    with \<open>get_question_or_404 d question_id = Inr q\<close> show ?thesis
      by (simp add: vote_def Let_def reverse_results_def raise_response_def)
  qed
qed

theorem vote_outcomes_witness:
  "fst (vote demo_db 1 [(''choice'', ''x'')]) = NotFound \<or>
   fst (vote demo_db 1 [(''choice'', ''x'')]) = ServerError ValueError \<or>
   fst (vote demo_db 1 [(''choice'', ''x'')]) = ServerError TypeError \<or>
   fst (vote demo_db 1 [(''choice'', ''x'')]) = ServerError NoReverseMatch \<or>
   (\<exists>q. fst (vote demo_db 1 [(''choice'', ''x'')]) = Render ''polls/detail.html'' (DetailCtx q (Some no_choice_msg)))"
  by (rule vote_outcomes [OF wf_demo_db])

end
