(* ===== verification/Polls_Concurrency.thy ===== *)
theory Polls_Concurrency
  imports Polls_Views
begin

text \<open>
  Concurrent vote requests. Django serves each request in its own thread with its own
  database connection in autocommit mode, so the queries of two \<open>vote\<close> calls
  interleave. The view reads the selected choice (\<open>choice_set.get\<close>, line 29),
  increments the in-memory copy (line 37) and writes every field back
  (\<open>save()\<close>, line 38): a read-modify-write with no lock and no \<open>F()\<close>
  expression. The model splits \<open>vote\<close> at the one point where another request's
  write can matter: \<open>vote_read\<close> (lines 27-35, which only read) and
  \<open>vote_write\<close> (lines 37-39); \<open>vote_split\<close> (in \<open>Polls_Schedules\<close>) shows
  that running them back to back is \<open>vote\<close>. Taking the two reads of \<open>vote_read\<close> as one step loses no
  interleaving, because votes never write the question table.

  A system state holds the database, one thread per request (waiting to read, holding
  the row it read, or finished with its response) and a ghost counter \<open>saves\<close> of
  the writes done. \<open>thread_step\<close> advances one thread; \<open>conc_step\<close> is any
  thread's step and \<open>reach\<close> its reflexive-transitive closure from a start state.
  Two invariants hold in every reachable state: \<open>conc_inv\<close> (the rows and the rows
  threads hold stay within the start value and the start value plus the saves) and
  \<open>count_inv\<close> (the saves are exactly the finished valid votes); C13 follows.
\<close>

definition vote_read :: "db \<Rightarrow> pk \<Rightarrow> post_data \<Rightarrow> response + (question \<times> choice)" where
  "vote_read d question_id post =
     (case get_question_or_404 d question_id of
        Inl e \<Rightarrow> Inl (raise_response e)
      | Inr question \<Rightarrow>
          (case selected_choice_get d question post of
             Inl e \<Rightarrow>
               Inl (if e = KeyError \<or> e = DoesNotExist
                    then Render ''polls/detail.html'' (DetailCtx question (Some no_choice_msg))
                    else raise_response e)
           | Inr selected_choice \<Rightarrow> Inr (question, selected_choice)))"

definition vote_write :: "db \<Rightarrow> question \<Rightarrow> choice \<Rightarrow> response \<times> db" where
  "vote_write d question selected_choice =
     (let selected_choice = selected_choice\<lparr>votes := votes selected_choice + 1\<rparr>;
          d' = save_choice d selected_choice
      in case reverse_results (ArgInt (qid question)) of
           Inl e \<Rightarrow> (raise_response e, d')
         | Inr url \<Rightarrow> (Redirect url, d'))"

datatype thread =
    Pending pk post_data
  | Loaded question choice
  | Finished response

record sys =
  sys_db :: db
  threads :: "thread list"
  saves :: nat

definition init_sys :: "db \<Rightarrow> (pk \<times> post_data) list \<Rightarrow> sys" where
  "init_sys d reqs = \<lparr>sys_db = d, threads = map (\<lambda>(k, p). Pending k p) reqs, saves = 0\<rparr>"

definition thread_step :: "sys \<Rightarrow> nat \<Rightarrow> sys option" where
  "thread_step s i =
     (if i < length (threads s) then
        (case threads s ! i of
           Pending k p \<Rightarrow>
             (case vote_read (sys_db s) k p of
                Inl r \<Rightarrow> Some (s\<lparr>threads := (threads s)[i := Finished r]\<rparr>)
              | Inr (q, c) \<Rightarrow> Some (s\<lparr>threads := (threads s)[i := Loaded q c]\<rparr>))
         | Loaded q c \<Rightarrow>
             (case vote_write (sys_db s) q c of
                (r, d') \<Rightarrow>
                  Some (s\<lparr>sys_db := d', threads := (threads s)[i := Finished r],
                          saves := saves s + 1\<rparr>))
         | Finished r \<Rightarrow> None)
      else None)"

inductive conc_step :: "sys \<Rightarrow> sys \<Rightarrow> bool" where
  step: "thread_step s i = Some s' \<Longrightarrow> conc_step s s'"

inductive reach :: "sys \<Rightarrow> sys \<Rightarrow> bool" for s0 :: sys where
  reach_init: "reach s0 s0"
| reach_step: "reach s0 s \<Longrightarrow> conc_step s s' \<Longrightarrow> reach s0 s'"

fun run_sched :: "sys \<Rightarrow> nat list \<Rightarrow> sys option" where
  "run_sched s [] = Some s"
| "run_sched s (i # is) = (case thread_step s i of None \<Rightarrow> None | Some s' \<Rightarrow> run_sched s' is)"

fun is_finished :: "thread \<Rightarrow> bool" where
  "is_finished (Finished _) = True"
| "is_finished _ = False"

text \<open>
  The invariant of the concurrent system: every row of the database, and every row a
  thread holds, is a row of the start database with the same key and foreign key and a
  counter between the start value and the start value plus the writes done so far.
\<close>

definition row_ok :: "db \<Rightarrow> nat \<Rightarrow> choice \<Rightarrow> bool" where
  "row_ok d n x \<longleftrightarrow>
     list_ex (\<lambda>y. cid y = cid x \<and> choice_question y = choice_question x \<and>
                 votes y \<le> votes x \<and> votes x \<le> votes y + int n) (choices d)"

fun thread_ok :: "db \<Rightarrow> nat \<Rightarrow> thread \<Rightarrow> bool" where
  "thread_ok d n (Loaded q c) = row_ok d n c"
| "thread_ok d n _ = True"

definition conc_inv :: "db \<Rightarrow> nat \<Rightarrow> sys \<Rightarrow> bool" where
  "conc_inv d m s \<longleftrightarrow>
     wf_db (sys_db s) \<and> questions (sys_db s) = questions d \<and>
     map cid (choices (sys_db s)) = map cid (choices d) \<and>
     list_all (row_ok d (saves s)) (choices (sys_db s)) \<and>
     list_all (thread_ok d (saves s)) (threads s) \<and>
     length (threads s) = m \<and> saves s \<le> length (filter is_finished (threads s))"

text \<open>
  Which requests are valid votes, and the second invariant: each thread still serves its
  request, a thread holds a row only for a valid vote, and the writes done are exactly
  the finished threads of valid votes.
\<close>

definition vote_valid :: "db \<Rightarrow> pk \<times> post_data \<Rightarrow> bool" where
  "vote_valid d r \<longleftrightarrow> \<not> isl (vote_read d (fst r) (snd r))"

fun thread_req :: "db \<Rightarrow> pk \<times> post_data \<Rightarrow> thread \<Rightarrow> bool" where
  "thread_req d r (Pending k p) \<longleftrightarrow> r = (k, p)"
| "thread_req d r (Loaded q c) \<longleftrightarrow> vote_valid d r"
| "thread_req d r (Finished _) \<longleftrightarrow> True"

definition count_inv :: "db \<Rightarrow> (pk \<times> post_data) list \<Rightarrow> sys \<Rightarrow> bool" where
  "count_inv d reqs s \<longleftrightarrow>
     list_all2 (thread_req d) reqs (threads s) \<and>
     saves s = length (filter (\<lambda>(r, t). is_finished t \<and> vote_valid d r) (zip reqs (threads s)))"

text \<open>Fixture: \<open>n\<close> identical votes for choice 1 of question 1.\<close>

definition demo_votes :: "nat \<Rightarrow> (pk \<times> post_data) list" where
  "demo_votes n = replicate n (1, [(''choice'', ''1'')])"

subsection \<open>The invariant of concurrent votes\<close>

inductive_simps conc_step_iff: "conc_step s s'"

lemma vote_write_db: "snd (vote_write d q c) = save_choice d (c\<lparr>votes := votes c + 1\<rparr>)"
  by (simp add: vote_write_def Let_def split: sum.splits)

lemma vote_read_Inr: "vote_read d k p = Inr (q, c) \<Longrightarrow> c \<in> set (choices d)"
  by (auto simp: vote_read_def dest: selected_choice_get_Inr split: sum.splits)

lemma row_ok_mono: "row_ok d n x \<Longrightarrow> n \<le> m \<Longrightarrow> row_ok d m x"
  by (auto simp: row_ok_def list_ex_iff)

lemma thread_ok_mono: "thread_ok d n t \<Longrightarrow> n \<le> m \<Longrightarrow> thread_ok d m t"
  by (cases t) (auto intro: row_ok_mono)

lemma row_ok_refl: "x \<in> set (choices d) \<Longrightarrow> row_ok d 0 x"
  by (auto simp: row_ok_def list_ex_iff)

lemma conc_inv_init: "wf_db d \<Longrightarrow> conc_inv d (length reqs) (init_sys d reqs)"
  by (auto simp: conc_inv_def init_sys_def list_all_iff row_ok_refl)

lemma row_ok_write:
  assumes "row_ok d n c"
  shows "row_ok d (Suc n) (c\<lparr>votes := votes c + 1\<rparr>)"
  using assms by (auto simp: row_ok_def list_ex_iff)

lemma row_ok_fk:
  "wf_db d \<Longrightarrow> row_ok d n c \<Longrightarrow>
   cid c \<in> set (map cid (choices d)) \<and> choice_question c \<in> set (map qid (questions d)) \<and> 0 \<le> votes c"
proof -
  assume wf: "wf_db d" and ok: "row_ok d n c"
  then obtain y where y: "y \<in> set (choices d)" "cid y = cid c" "choice_question y = choice_question c"
    "votes y \<le> votes c" by (auto simp: row_ok_def list_ex_iff)
  from wf_db_choice [OF wf y(1)] y show ?thesis
    by (metis image_eqI list.set_map order.trans)
qed

lemma conc_inv_read:
  assumes inv: "conc_inv d m s" and i: "i < length (threads s)" and t: "threads s ! i = Pending k p"
  shows "case vote_read (sys_db s) k p of
           Inl r \<Rightarrow> conc_inv d m (s\<lparr>threads := (threads s)[i := Finished r]\<rparr>)
         | Inr (q, c) \<Rightarrow> conc_inv d m (s\<lparr>threads := (threads s)[i := Loaded q c]\<rparr>)"
proof (cases "vote_read (sys_db s) k p")
  case (Inl r)
  with inv i t show ?thesis
    by (simp add: conc_inv_def list_all_update length_filter_update_not)
next
  case (Inr qc)
  then obtain q c where qc: "vote_read (sys_db s) k p = Inr (q, c)" by (cases qc) auto
  then have "c \<in> set (choices (sys_db s))" by (rule vote_read_Inr)
  with inv have "row_ok d (saves s) c" by (auto simp: conc_inv_def list_all_iff)
  with inv i t qc show ?thesis
    by (simp add: conc_inv_def list_all_update length_filter_update_not)
qed

lemma conc_inv_write:
  assumes inv: "conc_inv d m s" and wf: "wf_db d"
    and i: "i < length (threads s)" and t: "threads s ! i = Loaded q c"
  shows "conc_inv d m (s\<lparr>sys_db := snd (vote_write (sys_db s) q c),
                          threads := (threads s)[i := Finished (fst (vote_write (sys_db s) q c))],
                          saves := saves s + 1\<rparr>)"
proof -
  let ?db = "sys_db s"
  let ?c' = "c\<lparr>votes := votes c + 1\<rparr>"
  have ok: "row_ok d (saves s) c"
    using inv i t by (auto simp: conc_inv_def dest: list_all_nth)
  have keys: "map cid (choices ?db) = map cid (choices d)" and qs: "questions ?db = questions d"
    and wfdb: "wf_db ?db" using inv by (simp_all add: conc_inv_def)
  from row_ok_fk [OF wf ok] keys qs
  have mem: "cid ?c' \<in> set (map cid (choices ?db))"
    and fk: "choice_question ?c' \<in> set (map qid (questions ?db))" and nn: "0 \<le> votes ?c'"
    by simp_all
  have db': "snd (vote_write ?db q c) = ?db\<lparr>choices := replace_key cid ?c' (choices ?db)\<rparr>"
    using mem by (simp add: vote_write_db save_choice_def)
  have wf': "wf_db (snd (vote_write ?db q c))"
    unfolding vote_write_db by (rule wf_save_choice [OF wfdb mem fk nn])
  have rows: "list_all (row_ok d (Suc (saves s))) (replace_key cid ?c' (choices ?db))"
    using inv row_ok_write [OF ok]
    by (auto simp: conc_inv_def list_all_iff intro: row_ok_mono dest!: set_replace_key_mem)
  have thr: "list_all (thread_ok d (Suc (saves s))) (threads s)"
    using inv by (auto simp: conc_inv_def list_all_iff intro: thread_ok_mono)
  show ?thesis
    using inv i t wf' rows thr keys qs
    by (simp add: conc_inv_def db' list_all_update length_filter_update_not)
qed

lemma conc_inv_step:
  assumes inv: "conc_inv d m s" and wf: "wf_db d" and st: "thread_step s i = Some s'"
  shows "conc_inv d m s'"
proof -
  from st have i: "i < length (threads s)" by (simp add: thread_step_def split: if_splits)
  show ?thesis
  proof (cases "threads s ! i")
    case (Pending k p)
    with conc_inv_read [OF inv i Pending] st i show ?thesis
      by (auto simp: thread_step_def split: sum.splits)
  next
    case (Loaded q c)
    with conc_inv_write [OF inv wf i Loaded] st i show ?thesis
      by (auto simp: thread_step_def split: prod.splits)
  next
    case (Finished r)
    with st i show ?thesis by (simp add: thread_step_def)
  qed
qed

lemma reach_conc_inv:
  assumes "reach (init_sys d reqs) s" and "wf_db d"
  shows "conc_inv d (length reqs) s"
  using assms
proof (induction rule: reach.induct)
  case reach_init
  then show ?case by (rule conc_inv_init)
next
  case (reach_step s s')
  from reach_step.hyps(2) obtain i where "thread_step s i = Some s'" by (auto simp: conc_step_iff)
  with reach_step.IH [OF reach_step.prems] reach_step.prems show ?case by (blast intro: conc_inv_step)
qed

subsection \<open>Every valid vote is written once\<close>

text \<open>
  Whether a request is a valid vote does not depend on the interleaving: votes change
  counters only, never the questions, the keys or the foreign keys of choices.
\<close>

lemma choice_set_get_isl:
  assumes "wf_db d"
  shows "isl (choice_set_get d q k) \<longleftrightarrow> \<not> (\<exists>x\<in>set (choices d). choice_question x = qid q \<and> cid x = k)"
proof (cases "\<exists>x\<in>set (choices d). choice_question x = qid q \<and> cid x = k")
  case True
  then obtain x where x: "x \<in> set (choices d)" "choice_question x = qid q" "cid x = k" by blast
  with choice_set_get_found [OF assms x(1,2)] True show ?thesis by simp
next
  case False
  then show ?thesis by (simp add: choice_set_get_missing)
qed

lemma vote_read_isl:
  "isl (vote_read d k p) \<longleftrightarrow>
     (case get_question_or_404 d k of Inl _ \<Rightarrow> True | Inr q \<Rightarrow> isl (selected_choice_get d q p))"
  by (simp add: vote_read_def split: sum.splits)

lemma vote_read_isl_same:
  assumes wf: "wf_db d" "wf_db d'" and qs: "questions d' = questions d"
    and rows: "\<And>q k. (\<exists>x\<in>set (choices d'). choice_question x = q \<and> cid x = k) \<longleftrightarrow>
                      (\<exists>y\<in>set (choices d). choice_question y = q \<and> cid y = k)"
  shows "isl (vote_read d' k p) = isl (vote_read d k p)"
proof -
  have g: "get_question_or_404 d' k = get_question_or_404 d k"
    using qs by (simp add: get_question_or_404_def)
  have "isl (selected_choice_get d' q p) = isl (selected_choice_get d q p)" for q
    using choice_set_get_isl [OF wf(1)] choice_set_get_isl [OF wf(2)] rows
    by (simp add: selected_choice_get_def split: sum.splits option.splits)
  then show ?thesis using g by (simp add: vote_read_isl split: sum.splits)
qed

lemma conc_inv_rows:
  assumes inv: "conc_inv d m s" and wf: "wf_db d"
  shows "(\<exists>x\<in>set (choices (sys_db s)). choice_question x = q \<and> cid x = k) \<longleftrightarrow>
         (\<exists>y\<in>set (choices d). choice_question y = q \<and> cid y = k)"
proof
  assume "\<exists>x\<in>set (choices (sys_db s)). choice_question x = q \<and> cid x = k"
  then obtain x where x: "x \<in> set (choices (sys_db s))" "choice_question x = q" "cid x = k" by blast
  with inv have "row_ok d (saves s) x" by (auto simp: conc_inv_def list_all_iff)
  with x show "\<exists>y\<in>set (choices d). choice_question y = q \<and> cid y = k"
    by (auto simp: row_ok_def list_ex_iff)
next
  assume "\<exists>y\<in>set (choices d). choice_question y = q \<and> cid y = k"
  then obtain y where y: "y \<in> set (choices d)" "choice_question y = q" "cid y = k" by blast
  from inv have "map cid (choices (sys_db s)) = map cid (choices d)" by (simp add: conc_inv_def)
  with y have "k \<in> cid ` set (choices (sys_db s))" by (metis image_eqI list.set_map)
  then obtain x where x: "x \<in> set (choices (sys_db s))" "cid x = k" by auto
  with inv have "row_ok d (saves s) x" by (auto simp: conc_inv_def list_all_iff)
  then obtain y' where y': "y' \<in> set (choices d)" "cid y' = cid x" "choice_question y' = choice_question x"
    by (auto simp: row_ok_def list_ex_iff)
  from wf y y' x have "y' = y" by (auto simp: wf_db_def intro: distinct_key_unique)
  with x y y' show "\<exists>x\<in>set (choices (sys_db s)). choice_question x = q \<and> cid x = k" by auto
qed

lemma conc_inv_vote_valid:
  "conc_inv d m s \<Longrightarrow> wf_db d \<Longrightarrow> isl (vote_read (sys_db s) k p) \<longleftrightarrow> \<not> vote_valid d (k, p)"
  using vote_read_isl_same [of d "sys_db s"] conc_inv_rows [of d m s]
  by (simp add: vote_valid_def conc_inv_def)

lemma count_inv_init: "count_inv d reqs (init_sys d reqs)"
  by (induction reqs) (auto simp: count_inv_def init_sys_def)

lemma count_inv_step:
  assumes inv: "conc_inv d (length reqs) s" and wf: "wf_db d" and ci: "count_inv d reqs s"
    and st: "thread_step s i = Some s'"
  shows "count_inv d reqs s'"
proof -
  from st have i: "i < length (threads s)" by (simp add: thread_step_def split: if_splits)
  from ci have a2: "list_all2 (thread_req d) reqs (threads s)" by (simp add: count_inv_def)
  then have len: "length reqs = length (threads s)" by (rule list_all2_lengthD)
  from a2 i have tr: "thread_req d (reqs ! i) (threads s ! i)" by (simp add: list_all2_nthD2)
  let ?P = "\<lambda>(r, t). is_finished t \<and> vote_valid d r"
  have upd: "\<And>t. zip reqs ((threads s)[i := t]) = (zip reqs (threads s))[i := (reqs ! i, t)]"
    by (simp add: update_zip)
  have a2u: "\<And>t. thread_req d (reqs ! i) t \<Longrightarrow> list_all2 (thread_req d) reqs ((threads s)[i := t])"
    using list_all2_update_cong [OF a2] by (metis list_update_id)
  have cnt: "length (filter ?P (zip reqs ((threads s)[i := t]))) =
      saves s + (if is_finished t \<and> vote_valid d (reqs ! i) then 1 else 0)"
    if "\<not> is_finished (threads s ! i)" for t
  proof -
    have "\<not> ?P (zip reqs (threads s) ! i)" using i len that by simp
    moreover have "i < length (zip reqs (threads s))" using i len by simp
    ultimately show ?thesis using ci by (simp add: upd length_filter_update_not count_inv_def)
  qed
  show ?thesis
  proof (cases "threads s ! i")
    case (Pending k p)
    with tr have r: "reqs ! i = (k, p)" by simp
    show ?thesis
    proof (cases "vote_read (sys_db s) k p")
      case (Inl res)
      then have "\<not> vote_valid d (k, p)" using conc_inv_vote_valid [OF inv wf, of k p] by simp
      with Pending Inl st i ci r show ?thesis
        by (auto simp: thread_step_def count_inv_def a2u cnt)
    next
      case (Inr qc)
      then have "vote_valid d (k, p)" using conc_inv_vote_valid [OF inv wf, of k p] by simp
      with Pending Inr st i ci r show ?thesis
        by (auto simp: thread_step_def count_inv_def a2u cnt split: prod.splits)
    qed
  next
    case (Loaded q c)
    with tr have "vote_valid d (reqs ! i)" by simp
    with Loaded st i ci show ?thesis
      by (auto simp: thread_step_def count_inv_def a2u cnt split: prod.splits)
  next
    case (Finished r)
    with st i show ?thesis by (simp add: thread_step_def)
  qed
qed

lemma reach_count_inv:
  assumes "reach (init_sys d reqs) s" and "wf_db d"
  shows "count_inv d reqs s"
  using assms
proof (induction rule: reach.induct)
  case reach_init
  show ?case by (rule count_inv_init)
next
  case (reach_step s s')
  from reach_step.hyps(2) obtain i where st: "thread_step s i = Some s'" by (auto simp: conc_step_iff)
  have "conc_inv d (length reqs) s" using reach_step.hyps(1) reach_step.prems by (rule reach_conc_inv)
  with reach_step.IH [OF reach_step.prems] reach_step.prems st show ?case by (blast intro: count_inv_step)
qed

text \<open>
  C13: in every reachable state of concurrent votes on a well-formed database each
  counter stays between its start value and the start value plus the number of saves,
  and the saves are at most the valid votes among the requests; once every request is
  answered, every valid vote has been saved exactly once. The requests post ASCII text,
  on which the model's int() is Python's. No vote is ever saved twice
  or skipped: the votes lost to interleaving are all saved, and overwritten.
\<close>

theorem reach_tally_bounds:
  assumes wf: "wf_db d" and r: "reach (init_sys d reqs) s" and t: "tally d k = Some v"
    and ascii: "list_all (\<lambda>(k, p). list_all (ascii_string \<circ> snd) p) reqs"
  shows "\<exists>v'. tally (sys_db s) k = Some v' \<and> v \<le> v' \<and> v' \<le> v + int (saves s) \<and>
              saves s \<le> length (filter (vote_valid d) reqs) \<and>
              (list_all is_finished (threads s) \<longrightarrow> saves s = length (filter (vote_valid d) reqs))"
proof -
  have inv: "conc_inv d (length reqs) s" using r wf by (rule reach_conc_inv)
  have ci: "count_inv d reqs s" using r wf by (rule reach_count_inv)
  from t obtain y where y: "y \<in> set (choices d)" "cid y = k" "votes y = v"
    by (auto simp: tally_def dest: find_Some_mem)
  from inv have keys: "map cid (choices (sys_db s)) = map cid (choices d)"
    and wfs: "wf_db (sys_db s)" by (simp_all add: conc_inv_def)
  from y keys have "k \<in> set (map cid (choices (sys_db s)))" by (metis image_eqI list.set_map)
  then obtain x where x: "x \<in> set (choices (sys_db s))" "cid x = k" by auto
  from inv x have "row_ok d (saves s) x" by (auto simp: conc_inv_def list_all_iff)
  then obtain y' where y': "y' \<in> set (choices d)" "cid y' = cid x"
    "votes y' \<le> votes x" "votes x \<le> votes y' + int (saves s)"
    by (auto simp: row_ok_def list_ex_iff)
  from wf y y' x have "y' = y" by (auto simp: wf_db_def intro: distinct_key_unique)
  moreover from wfs x have "tally (sys_db s) k = Some (votes x)" by (metis tally_wf)
  moreover have "saves s \<le> length (filter (vote_valid d) reqs)"
    using ci length_filter_zip_le [of is_finished "vote_valid d" reqs "threads s"]
    by (simp add: count_inv_def)
  moreover have "list_all is_finished (threads s) \<longrightarrow> saves s = length (filter (vote_valid d) reqs)"
    using ci length_filter_zip_all [of reqs "threads s" is_finished "vote_valid d"]
    by (auto simp: count_inv_def dest: list_all2_lengthD)
  ultimately show ?thesis using y y' by auto
qed

theorem reach_tally_bounds_witness:
  "\<exists>v'. tally (sys_db (init_sys demo_db (demo_votes 2))) 1 = Some v' \<and> 5 \<le> v' \<and>
        v' \<le> 5 + int (saves (init_sys demo_db (demo_votes 2))) \<and>
        saves (init_sys demo_db (demo_votes 2)) \<le> length (filter (vote_valid demo_db) (demo_votes 2)) \<and>
        (list_all is_finished (threads (init_sys demo_db (demo_votes 2))) \<longrightarrow>
         saves (init_sys demo_db (demo_votes 2)) = length (filter (vote_valid demo_db) (demo_votes 2)))"
proof -
  have "tally demo_db 1 = Some 5" using tally_wf [OF wf_demo_db demo_mem(2)] by simp
  moreover have "list_all (\<lambda>(k, p). list_all (ascii_string \<circ> snd) p) (demo_votes 2)" by code_simp
  ultimately show ?thesis by (rule reach_tally_bounds [OF wf_demo_db reach.reach_init])
qed

end
