(* ===== verification/Polls_Schedules.thy ===== *)
theory Polls_Schedules
  imports Polls_Concurrency
begin

text \<open>
  Explicit schedules of the concurrent vote system of \<open>Polls_Concurrency\<close>: a schedule
  is the list of the threads that step, one after another (\<open>run_sched\<close>). Two
  schedules of the same requests end with different counters (the lost update, C3); a
  stale save lowers a counter (C12); and for every number n of identical valid votes a
  schedule that runs every read before every write answers and saves all n while the
  counter rises by one only (C24).
\<close>

definition all_finished :: "sys \<Rightarrow> bool" where
  "all_finished s \<longleftrightarrow> list_all is_finished (threads s)"

subsection \<open>Schedules and reachability\<close>

lemma reach_trans_step: "reach s0 s \<Longrightarrow> thread_step s i = Some s' \<Longrightarrow> reach s0 s'"
  by (blast intro: reach.reach_step conc_step.step)

lemma run_sched_reach: "run_sched s is = Some s' \<Longrightarrow> reach s0 s \<Longrightarrow> reach s0 s'"
proof (induction s "is" rule: run_sched.induct)
  case (1 s)
  then show ?case by simp
next
  case (2 s i "is")
  then show ?case by (auto split: option.splits intro: reach_trans_step)
qed

lemma run_sched_reach_init: "run_sched s0 is = Some s \<Longrightarrow> reach s0 s"
  by (erule run_sched_reach) (rule reach.reach_init)

text \<open>
  C3: votes are lost under concurrency. From the same database and the same two valid
  votes for one choice, two complete runs that both perform both saves end with the
  counter at 7 (one request after the other) and at 6 (reads interleaved): the view's
  read-modify-write loses an update, against the specification's atomic increment.
\<close>

theorem lost_update:
  "\<exists>s s'. reach (init_sys demo_db (demo_votes 2)) s \<and> reach (init_sys demo_db (demo_votes 2)) s' \<and>
     threads s = [Finished (ServerError TypeError), Finished (ServerError TypeError)] \<and>
     threads s' = threads s \<and> saves s = 2 \<and> saves s' = 2 \<and>
     tally (sys_db s) 1 = Some 7 \<and> tally (sys_db s') 1 = Some 6"
proof -
  have serial: "case run_sched (init_sys demo_db (demo_votes 2)) [0, 0, 1, 1] of None \<Rightarrow> False
      | Some s \<Rightarrow> threads s = [Finished (ServerError TypeError), Finished (ServerError TypeError)] \<and>
                 saves s = 2 \<and> tally (sys_db s) 1 = Some 7"
    by code_simp
  have inter: "case run_sched (init_sys demo_db (demo_votes 2)) [0, 1, 0, 1] of None \<Rightarrow> False
      | Some s \<Rightarrow> threads s = [Finished (ServerError TypeError), Finished (ServerError TypeError)] \<and>
                 saves s = 2 \<and> tally (sys_db s) 1 = Some 6"
    by code_simp
  obtain s where rs: "run_sched (init_sys demo_db (demo_votes 2)) [0, 0, 1, 1] = Some s"
    and ps: "threads s = [Finished (ServerError TypeError), Finished (ServerError TypeError)]"
      "saves s = 2" "tally (sys_db s) 1 = Some 7"
    using serial by (auto split: option.splits simp del: run_sched.simps)
  obtain s' where rs': "run_sched (init_sys demo_db (demo_votes 2)) [0, 1, 0, 1] = Some s'"
    and ps': "threads s' = [Finished (ServerError TypeError), Finished (ServerError TypeError)]"
      "saves s' = 2" "tally (sys_db s') 1 = Some 6"
    using inter by (auto split: option.splits simp del: run_sched.simps)
  have "reach (init_sys demo_db (demo_votes 2)) s" by (rule run_sched_reach_init [OF rs])
  moreover have "reach (init_sys demo_db (demo_votes 2)) s'" by (rule run_sched_reach_init [OF rs'])
  ultimately show ?thesis using ps ps' by (intro exI [of _ s] exI [of _ s']) simp
qed

text \<open>
  C12: with three concurrent votes a reachable step lowers a counter (from 7 to 6): the
  specification's invariant that a choice's vote counter never decreases fails.
\<close>

theorem counter_can_decrease:
  "\<exists>s s'. reach (init_sys demo_db (demo_votes 3)) s \<and> conc_step s s' \<and>
     tally (sys_db s) 1 = Some 7 \<and> tally (sys_db s') 1 = Some 6"
proof -
  have h: "case run_sched (init_sys demo_db (demo_votes 3)) [0, 1, 1, 2, 2] of None \<Rightarrow> False
      | Some s \<Rightarrow> tally (sys_db s) 1 = Some 7 \<and>
          (case thread_step s 0 of None \<Rightarrow> False | Some s' \<Rightarrow> tally (sys_db s') 1 = Some 6)"
    by code_simp
  then show ?thesis
    by (auto split: option.splits simp del: run_sched.simps dest!: run_sched_reach_init
        intro: conc_step.step)
qed

subsection \<open>Composing schedules\<close>

lemma run_sched_append:
  "run_sched s (xs @ ys) = (case run_sched s xs of None \<Rightarrow> None | Some s' \<Rightarrow> run_sched s' ys)"
  by (induction s xs rule: run_sched.induct) (auto split: option.splits)

subsection \<open>All reads before any write\<close>

text \<open>
  \<open>n\<close> identical votes whose threads all read before any of them writes: after the
  reads every thread holds the same row; each write then saves that row one up.
\<close>

lemma vote_write_response: "fst (vote_write d' q c) = fst (vote_write d q c)"
  by (simp add: vote_write_def Let_def split: sum.splits)

lemma reads_phase:
  assumes rd: "vote_read d k p = Inr (q, c)"
  shows "m \<le> n \<Longrightarrow> run_sched (init_sys d (replicate n (k, p))) [0..<m] =
           Some \<lparr>sys_db = d, threads = replicate m (Loaded q c) @ replicate (n - m) (Pending k p),
                 saves = 0\<rparr>"
proof (induction m)
  case 0
  then show ?case by (simp add: init_sys_def)
next
  case (Suc m)
  then have m: "m < n" by simp
  let ?ts = "replicate m (Loaded q c) @ replicate (n - m) (Pending k p)"
  have t: "?ts ! m = Pending k p" using m by (simp add: nth_append)
  from Suc m show ?case
    by (simp add: run_sched_append thread_step_def t rd replicate_append_update)
qed

lemma writes_phase:
  assumes c: "cid c \<in> set (map cid (choices d))"
  shows "j \<le> n \<Longrightarrow> run_sched \<lparr>sys_db = d, threads = replicate n (Loaded q c), saves = 0\<rparr> [0..<j] =
           Some \<lparr>sys_db = (if j = 0 then d else save_choice d (c\<lparr>votes := votes c + 1\<rparr>)),
                 threads = replicate j (Finished (fst (vote_write d q c))) @ replicate (n - j) (Loaded q c),
                 saves = j\<rparr>"
proof (induction j)
  case 0
  then show ?case by simp
next
  case (Suc j)
  then have j: "j < n" by simp
  let ?c' = "c\<lparr>votes := votes c + 1\<rparr>"
  let ?db = "if j = 0 then d else save_choice d ?c'"
  let ?ts = "replicate j (Finished (fst (vote_write d q c))) @ replicate (n - j) (Loaded q c)"
  have t: "?ts ! j = Loaded q c" using j by (simp add: nth_append)
  have "snd (vote_write ?db q c) = save_choice d ?c'"
    using c by (simp add: vote_write_db save_choice_idem)
  moreover have "fst (vote_write ?db q c) = fst (vote_write d q c)" by (rule vote_write_response)
  ultimately have w: "vote_write ?db q c = (fst (vote_write d q c), save_choice d ?c')"
    by (metis prod.collapse)
  from Suc j show ?case
    by (simp add: run_sched_append thread_step_def t w replicate_append_update)
qed

text \<open>
  C24: for every number n of concurrent valid votes for the same choice there is a run
  in which all n are answered and all n are saved, yet the counter rises by one only:
  the specification's property that n concurrent recordVote calls add exactly n fails
  for every n from 2 on.
\<close>

theorem reads_first_count_once:
  assumes wf: "wf_db d" and rd: "vote_read d k p = Inr (q, c)" and n: "0 < n"
  shows "\<exists>s. reach (init_sys d (replicate n (k, p))) s \<and> all_finished s \<and> saves s = n \<and>
             tally (sys_db s) (cid c) = Some (votes c + 1)"
proof -
  have cm: "c \<in> set (choices d)" using rd by (rule vote_read_Inr)
  then have ck: "cid c \<in> set (map cid (choices d))" by simp
  let ?s = "\<lparr>sys_db = save_choice d (c\<lparr>votes := votes c + 1\<rparr>),
             threads = replicate n (Finished (fst (vote_write d q c))), saves = n\<rparr>"
  have "run_sched (init_sys d (replicate n (k, p))) ([0..<n] @ [0..<n]) = Some ?s"
    using reads_phase [OF rd, of n n] writes_phase [OF ck, of n n q] n by (simp add: run_sched_append)
  then have "reach (init_sys d (replicate n (k, p))) ?s" by (rule run_sched_reach_init)
  moreover have "all_finished ?s" by (simp add: all_finished_def list_all_iff)
  moreover have "tally (sys_db ?s) (cid c) = Some (votes c + 1)" by (simp add: tally_save_choice)
  ultimately show ?thesis by (intro exI [of _ ?s]) simp
qed

theorem reads_first_count_once_witness:
  "\<exists>s. reach (init_sys demo_db (replicate 3 (1, [(''choice'', ''1'')]))) s \<and> all_finished s \<and>
       saves s = 3 \<and> tally (sys_db s) (cid demo_c1) = Some (votes demo_c1 + 1)"
proof -
  have "vote_read demo_db 1 [(''choice'', ''1'')] = Inr (demo_q, demo_c1)" by code_simp
  from reads_first_count_once [OF wf_demo_db this] show ?thesis by simp
qed

end
