(* ===== verification/Polls_Urls.thy ===== *)
theory Polls_Urls
  imports Polls_Views
begin

text \<open>
  URL routing around the views: the URL configuration of the app (namespace
  \<open>polls\<close>, mounted at \<open>/polls/\<close>), Django's \<open>reverse\<close> on it, the resolver that maps a
  request path to a view and its arguments, and the dispatch of an HTTP request to the
  view it names. \<open>polls/urls.py\<close> is not part of the sources: its four routes are
  the ones the code names (\<open>polls:index\<close>, \<open>polls:detail\<close> and \<open>polls:results\<close> in
  \<open>views.py\<close> and \<open>tests.py\<close>) and the route of \<open>vote\<close>, each with an
  \<open><int:question_id>\<close> converter (regular expression \<open>[0-9]+\<close>, \<open>to_url = str\<close>,
  \<open>to_python = int\<close>). The \<open>results_url\<close> of \<open>Polls_Views\<close> is the results route.
\<close>

datatype route = RIndex | RDetail | RResults | RVote

text \<open>The names of the routes, and the name a view is reversed by.\<close>

primrec view_name :: "route \<Rightarrow> string" where
  "view_name RIndex = ''index''"
| "view_name RDetail = ''detail''"
| "view_name RResults = ''results''"
| "view_name RVote = ''vote''"

definition route_of_view :: "string \<Rightarrow> route option" where
  "route_of_view v =
     (if v = ''index'' then Some RIndex
      else if v = ''detail'' then Some RDetail
      else if v = ''results'' then Some RResults
      else if v = ''vote'' then Some RVote
      else None)"

text \<open>What follows the converter in each pattern, and the number of its arguments.\<close>

primrec route_suffix :: "route \<Rightarrow> string" where
  "route_suffix RIndex = ''''"
| "route_suffix RDetail = ''/''"
| "route_suffix RResults = ''/results/''"
| "route_suffix RVote = ''/vote/''"

primrec route_arity :: "route \<Rightarrow> nat" where
  "route_arity RIndex = 0"
| "route_arity RDetail = 1"
| "route_arity RResults = 1"
| "route_arity RVote = 1"

definition polls_prefix :: string where
  "polls_prefix = ''/polls/''"

subsection \<open>\<open>reverse\<close>\<close>

text \<open>
  \<open>reverse(viewname, args=a)\<close> begins with \<open>args = args or []\<close> and later passes
  \<open>*args\<close>: a falsy \<open>a\<close> (the integer 0, \<open>None\<close>, an empty tuple) is no argument at
  all, any other integer cannot be unpacked and raises \<open>TypeError\<close>.
\<close>

definition star_args :: "py_args \<Rightarrow> int list option" where
  "star_args a = (case a of ArgInt n \<Rightarrow> if n = 0 then Some [] else None | ArgTuple ns \<Rightarrow> Some ns)"

text \<open>
  \<open>_reverse_with_prefix\<close>: the route of the view name, the number of arguments the
  pattern takes, and each argument's \<open>str\<close> matched against \<open>[0-9]+\<close> (a negative
  number is not); any failure is \<open>NoReverseMatch\<close>.
\<close>

definition reverse_with_prefix :: "string \<Rightarrow> int list \<Rightarrow> exc + string" where
  "reverse_with_prefix v args =
     (case route_of_view v of
        None \<Rightarrow> Inl NoReverseMatch
      | Some r \<Rightarrow>
          if length args = route_arity r \<and> list_all (\<lambda>n. 0 \<le> n) args
          then Inr (polls_prefix @ concat (map str_of_int args) @ route_suffix r)
          else Inl NoReverseMatch)"

text \<open>
  \<open>*path, view = viewname.split(":")\<close>: the namespaces are looked up before the call
  that unpacks the arguments. The name \<open>polls:v\<close> (one namespace, \<open>polls\<close>) reverses
  \<open>v\<close> in the app's URL configuration; a name with no namespace is looked up in the
  project's URL configuration, which names no route, so it fails after the unpacking;
  any other namespace path is \<open>NoReverseMatch\<close> whatever the arguments.
\<close>

definition reverse :: "string \<Rightarrow> py_args \<Rightarrow> exc + string" where
  "reverse viewname a =
     (if CHR '':'' \<notin> set viewname then
        (case star_args a of None \<Rightarrow> Inl TypeError | Some _ \<Rightarrow> Inl NoReverseMatch)
      else if take 6 viewname = ''polls:'' \<and> CHR '':'' \<notin> set (drop 6 viewname) then
        (case star_args a of
           None \<Rightarrow> Inl TypeError
         | Some args \<Rightarrow> reverse_with_prefix (drop 6 viewname) args)
      else Inl NoReverseMatch)"

subsection \<open>Resolving a path\<close>

text \<open>
  After the prefix \<open>/polls/\<close>, the empty rest is the index; otherwise the converter
  takes the longest run of ASCII digits, \<open>int()\<close> of it is the argument, and what
  follows must be exactly one route's suffix.
\<close>

definition resolve_question_route :: "string \<Rightarrow> (route \<times> int list) option" where
  "resolve_question_route s =
     (let ds = takeWhile is_digit s; rest = dropWhile is_digit s;
          question_id = int (digits_value ds)
      in if ds = [] then None
         else if rest = route_suffix RDetail then Some (RDetail, [question_id])
         else if rest = route_suffix RResults then Some (RResults, [question_id])
         else if rest = route_suffix RVote then Some (RVote, [question_id])
         else None)"

definition resolve :: "string \<Rightarrow> (route \<times> int list) option" where
  "resolve path =
     (if take 7 path = polls_prefix then
        (if drop 7 path = [] then Some (RIndex, []) else resolve_question_route (drop 7 path))
      else None)"

subsection \<open>Requests\<close>

text \<open>
  An HTTP request: its method, its path and its form body. Django fills
  \<open>request.POST\<close> only for a POST; for any other method it is an empty \<open>QueryDict\<close>.
  The views carry no method decorator (\<open>require_POST\<close>, \<open>require_GET\<close>), so every
  method reaches them.
\<close>

datatype http_method = GET | HEAD | POST | PUT | PATCH | DELETE | OPTIONS

record request =
  req_method :: http_method
  req_path :: string
  req_body :: post_data

definition request_POST :: "request \<Rightarrow> post_data" where
  "request_POST rq = (if req_method rq = POST then req_body rq else [])"

text \<open>
  The handler: resolve the path (no match is \<open>Resolver404\<close>, the 404 page) and call
  the view with the captured \<open>question_id\<close>. It takes the listing and detail views as
  parameters, so that the same handler serves the views of \<open>views.py\<close> and the views
  the specification describes; \<open>dispatch\<close> is the app with the code's views.
\<close>

definition handler ::
  "(db \<Rightarrow> response) \<Rightarrow> (db \<Rightarrow> pk \<Rightarrow> response) \<Rightarrow> db \<Rightarrow> request \<Rightarrow> response \<times> db" where
  "handler index_view detail_view d rq =
     (case resolve (req_path rq) of
        Some (RIndex, []) \<Rightarrow> (index_view d, d)
      | Some (RDetail, [question_id]) \<Rightarrow> (detail_view d question_id, d)
      | Some (RResults, [question_id]) \<Rightarrow> (results question_id, d)
      | Some (RVote, [question_id]) \<Rightarrow> vote d question_id (request_POST rq)
      | _ \<Rightarrow> (NotFound, d))"

definition dispatch :: "db \<Rightarrow> request \<Rightarrow> response \<times> db" where
  "dispatch d rq = handler index detail d rq"

text \<open>\<open>self.client.get(url)\<close> of the test client: a GET with no body.\<close>

definition client_get :: "db \<Rightarrow> string \<Rightarrow> response" where
  "client_get d url = fst (dispatch d \<lparr>req_method = GET, req_path = url, req_body = []\<rparr>)"

text \<open>
  A well-formed response for a database: a rendered page carries the context its
  template reads (\<open>latest_question_list\<close> for \<open>index.html\<close>, a stored
  \<open>question\<close> and at most the one \<open>error_message\<close> of \<open>vote\<close> for
  \<open>detail.html\<close>), a redirect names a path the URL configuration resolves, and the
  exceptions that escape a view are only those the views do not catch by design.
\<close>

fun response_ok :: "db \<Rightarrow> response \<Rightarrow> bool" where
  "response_ok d (Render t (IndexCtx qs)) \<longleftrightarrow> t = ''polls/index.html'' \<and> qs = questions d"
| "response_ok d (Render t (DetailCtx q m)) \<longleftrightarrow>
     t = ''polls/detail.html'' \<and> q \<in> set (questions d) \<and> (m = None \<or> m = Some no_choice_msg)"
| "response_ok d (Redirect u) \<longleftrightarrow> resolve u \<noteq> None"
| "response_ok d (PlainText _) \<longleftrightarrow> True"
| "response_ok d NotFound \<longleftrightarrow> True"
| "response_ok d (ServerError e) \<longleftrightarrow> e = ValueError \<or> e = TypeError \<or> e = NoReverseMatch"

subsection \<open>Routes and paths\<close>

lemma route_of_view_view_name [simp]: "route_of_view (view_name r) = Some r"
  by (cases r) (simp_all add: route_of_view_def)

lemma colon_notin_view_name [simp]: "CHR '':'' \<notin> set (view_name r)"
  by (cases r) simp_all

lemma str_of_int_nonneg: "0 \<le> n \<Longrightarrow> str_of_int n = str_of_nat (nat n)"
  by (simp add: str_of_int_def)

text \<open>The converter reads back the number printed before a route's suffix.\<close>

lemma resolve_question_route_str:
  assumes "r \<noteq> RIndex"
  shows "resolve_question_route (str_of_nat n @ route_suffix r) = Some (r, [int n])"
proof -
  have d: "\<And>x. x \<in> set (str_of_nat n) \<Longrightarrow> is_digit x"
    using str_of_nat_digits [of n] by (simp add: list_all_iff)
  have s: "takeWhile is_digit (route_suffix r) = [] \<and> dropWhile is_digit (route_suffix r) = route_suffix r"
    using assms by (cases r) (simp_all add: is_digit_def)
  have "takeWhile is_digit (str_of_nat n @ route_suffix r) = str_of_nat n"
    "dropWhile is_digit (str_of_nat n @ route_suffix r) = route_suffix r"
    using s by (simp_all add: d)
  with assms str_of_nat_digits [of n] show ?thesis
    by (cases r) (simp_all add: resolve_question_route_def digits_value_str_of_nat)
qed

lemma resolve_route_url:
  assumes "length args = route_arity r" "list_all (\<lambda>n. 0 \<le> n) args"
  shows "resolve (polls_prefix @ concat (map str_of_int args) @ route_suffix r) = Some (r, args)"
proof (cases "r = RIndex")
  case True
  with assms show ?thesis by (simp add: resolve_def polls_prefix_def)
next
  case False
  with assms(1) obtain n where a: "args = [n]" by (cases r) (auto simp: length_Suc_conv)
  with assms(2) have "0 \<le> n" by simp
  with False a show ?thesis
    using resolve_question_route_str [OF False, of "nat n"] str_of_nat_digits [of "nat n"]
    by (simp add: resolve_def polls_prefix_def str_of_int_nonneg)
qed

lemma resolve_one_arg:
  "r \<noteq> RIndex \<Longrightarrow> 0 \<le> k \<Longrightarrow> resolve (polls_prefix @ str_of_int k @ route_suffix r) = Some (r, [k])"
  using resolve_route_url [of "[k]" r] by (cases r) simp_all

lemma reverse_Inr:
  "reverse viewname a = Inr url \<Longrightarrow>
   \<exists>r args. route_of_view (drop 6 viewname) = Some r \<and> star_args a = Some args \<and>
     length args = route_arity r \<and> list_all (\<lambda>n. 0 \<le> n) args \<and>
     url = polls_prefix @ concat (map str_of_int args) @ route_suffix r"
  by (auto simp: reverse_def reverse_with_prefix_def split: if_splits option.splits)

lemma vote_empty_post: "snd (vote d question_id []) = d"
  by (simp add: vote_def selected_choice_get_def post_getitem_def split: sum.splits)

lemma response_ok_vote: "wf_db d \<Longrightarrow> response_ok d (fst (vote d question_id post))"
proof (cases "get_question_or_404 d question_id")
  case (Inl e)
  moreover assume "wf_db d"
  ultimately have "e = Http404" by (rule get_question_or_404_Inl [rotated])
  with Inl show ?thesis by (simp add: vote_def raise_response_def)
next
  case (Inr q)
  then have q: "q \<in> set (questions d)" by (rule get_question_or_404_Inr)
  assume wf: "wf_db d"
  show ?thesis
  proof (cases "selected_choice_get d q post")
    case (Inl e)
    from wf Inl have "e = KeyError \<or> e = ValueError \<or> e = DoesNotExist" by (rule selected_choice_get_Inl)
    with Inr Inl q show ?thesis by (auto simp: vote_def raise_response_def)
  next
    case (Inr c)
    with \<open>get_question_or_404 d question_id = Inr q\<close> show ?thesis
      by (simp add: vote_def Let_def reverse_results_def raise_response_def)
  qed
qed

lemma response_ok_detail: "wf_db d \<Longrightarrow> response_ok d (detail d question_id)"
  by (auto simp: detail_def raise_response_def dest: get_question_or_404_Inr get_question_or_404_Inl
      split: sum.splits)

text \<open>A fixture: the app holding the demo database, and the paths its client requests.\<close>

lemma demo_reverse_vote: "reverse ''polls:vote'' (ArgTuple [1]) = Inr ''/polls/1/vote/''"
  by code_simp

subsection \<open>Properties of the routing\<close>

text \<open>
  C19: only a POST can change the database: a request with any other method (GET, HEAD,
  PUT, PATCH, DELETE, OPTIONS) leaves it as it was, whatever its path and body, since the
  only view that writes is \<open>vote\<close> and its \<open>request.POST\<close> is then empty.
\<close>

theorem only_post_writes:
  assumes "req_method rq \<noteq> POST"
  shows "snd (dispatch d rq) = d"
  using assms
  by (auto simp: dispatch_def handler_def request_POST_def vote_empty_post
      split: option.splits route.splits list.splits)

theorem only_post_writes_witness:
  "snd (dispatch demo_db \<lparr>req_method = PUT, req_path = ''/polls/1/vote/'', req_body = [(''choice'', ''1'')]\<rparr>) = demo_db"
  by (rule only_post_writes) simp

text \<open>
  C20: a request other than a POST (a GET, say) of the vote URL of a stored question, even
  one carrying a choice in its body, re-renders the detail page with the error message
  and counts nothing.
\<close>

theorem get_vote_renders_form:
  assumes "wf_db d" "q \<in> set (questions d)" "reverse ''polls:vote'' (ArgTuple [qid q]) = Inr url"
    and "m \<noteq> POST"
  shows "dispatch d \<lparr>req_method = m, req_path = url, req_body = body\<rparr> =
           (Render ''polls/detail.html'' (DetailCtx q (Some no_choice_msg)), d)"
proof -
  from reverse_Inr [OF assms(3)] have "resolve url = Some (RVote, [qid q])"
    using resolve_one_arg [of RVote "qid q"] by (auto simp: star_args_def route_of_view_def split: if_splits)
  with assms(1,2,4) show ?thesis
    by (simp add: dispatch_def handler_def request_POST_def vote_def get_question_or_404_found
        selected_choice_get_def post_getitem_def)
qed

theorem get_vote_renders_form_witness:
  "dispatch demo_db \<lparr>req_method = GET, req_path = ''/polls/1/vote/'', req_body = [(''choice'', ''1'')]\<rparr> =
     (Render ''polls/detail.html'' (DetailCtx demo_q (Some no_choice_msg)), demo_db)"
  using get_vote_renders_form [OF wf_demo_db demo_mem(1), of _ GET] demo_reverse_vote by simp

text \<open>
  C21: on a well-formed database every response of the app, for every request, is well
  formed: each rendered page carries its template's context built from stored
  questions, and the exceptions that escape are only \<open>ValueError\<close> (a non-numeric
  choice), \<open>TypeError\<close> and \<open>NoReverseMatch\<close> (line 39); no ORM exception leaks.
\<close>

theorem app_response_ok:
  assumes "wf_db d"
  shows "response_ok d (fst (dispatch d rq))"
  using assms response_ok_vote [OF assms] response_ok_detail [OF assms]
  by (auto simp: dispatch_def handler_def index_def objects_all_def results_def
      split: option.splits route.splits list.splits)

theorem app_response_ok_witness:
  "response_ok demo_db (fst (dispatch demo_db \<lparr>req_method = POST, req_path = ''/polls/1/vote/'', req_body = [(''choice'', ''2'')]\<rparr>))"
  by (rule app_response_ok [OF wf_demo_db])

end
