(* ===== verification/Polls_Tests.thy ===== *)
theory Polls_Tests
  imports Polls_Urls
begin

text \<open>
  The test suite \<open>polls/tests.py\<close>, each test case as a boolean function that is
  \<open>True\<close> exactly when its assertions hold on the model. Every \<open>TestCase\<close> method
  runs on a fresh, empty test database. \<open>timezone.now()\<close> is read twice: once by
  the test to build its dates (\<open>t0\<close>) and once by the code under test (\<open>t1\<close>, for
  \<open>was_published_recently\<close>); the views under test read no clock.
  What a template prints is not modelled: \<open>assertContains(response, "No polls are
  available.")\<close> is read as the index template's branch for an empty
  \<open>latest_question_list\<close>, and \<open>assertContains(response, question_text)\<close> as the
  detail template showing the question in its context, with status 200.
\<close>

definition status_code :: "response \<Rightarrow> nat" where
  "status_code r =
     (case r of
        Render _ _ \<Rightarrow> 200
      | Redirect _ \<Rightarrow> 302
      | PlainText _ \<Rightarrow> 200
      | NotFound \<Rightarrow> 404
      | ServerError _ \<Rightarrow> 500)"

definition latest_question_list :: "response \<Rightarrow> question list option" where
  "latest_question_list r = (case r of Render _ (IndexCtx qs) \<Rightarrow> Some qs | _ \<Rightarrow> None)"

definition shows_no_polls :: "response \<Rightarrow> bool" where
  "shows_no_polls r \<longleftrightarrow> latest_question_list r = Some []"

definition shows_question :: "response \<Rightarrow> question \<Rightarrow> bool" where
  "shows_question r q \<longleftrightarrow> status_code r = 200 \<and>
     (case r of Render _ (DetailCtx q' _) \<Rightarrow> question_text q' = question_text q | _ \<Rightarrow> False)"

subsection \<open>\<open>QuestionModelsTest\<close>\<close>

text \<open>
  \<open>setUp\<close> builds an unsaved \<open>Question\<close> (its id is never read); each test sets its
  \<open>pub_date\<close>. The text \<open>\<iquestiondown>Qui\<eacute>n ...\<close> is written as its UTF-8 bytes.
\<close>

definition setup_question :: question where
  "setup_question =
     \<lparr>qid = 0,
      question_text = [CHR 0xC2, CHR 0xBF] @ ''Qui'' @ [CHR 0xC3, CHR 0xA9] @
                      ''n es el mejor course Directos de Platzi?'',
      pub_date = 0\<rparr>"

definition test_was_published_recently_future_questions :: "timestamp \<Rightarrow> timestamp \<Rightarrow> bool" where
  "test_was_published_recently_future_questions t0 t1 =
     (let time = t0 + timedelta_days 30
      in \<not> was_published_recently (setup_question\<lparr>pub_date := time\<rparr>) t1)"

definition test_was_published_recently_past_questions :: "timestamp \<Rightarrow> timestamp \<Rightarrow> bool" where
  "test_was_published_recently_past_questions t0 t1 =
     (let time = t0 - timedelta_days 15
      in \<not> was_published_recently (setup_question\<lparr>pub_date := time\<rparr>) t1)"

definition test_was_published_recently_present_questions :: "timestamp \<Rightarrow> timestamp \<Rightarrow> bool" where
  "test_was_published_recently_present_questions t0 t1 =
     (let time = t0
      in was_published_recently (setup_question\<lparr>pub_date := time\<rparr>) t1)"

subsection \<open>\<open>create_question\<close> and the view tests\<close>

text \<open>
  A view test builds its data, reverses the URL of the view (\<open>reverse("polls:index")\<close>,
  \<open>reverse("polls:detail", args=[id])\<close>) and requests it with \<open>self.client.get\<close>.
  The tests take the client as a parameter, a function from the database and a path
  to the response, so that the same test runs against the app of \<open>views.py\<close>
  (\<open>client_get\<close>) and against the app with the views the specification describes
  (\<open>spec_client\<close>). An exception raised by \<open>reverse\<close> is an error of the test.
\<close>

definition create_question :: "db \<Rightarrow> string \<Rightarrow> int \<Rightarrow> timestamp \<Rightarrow> question \<times> db" where
  "create_question d qtext days now =
     (let time = now + timedelta_days days
      in question_objects_create d qtext time)"

definition get_reversed ::
  "(db \<Rightarrow> string \<Rightarrow> response) \<Rightarrow> db \<Rightarrow> string \<Rightarrow> py_args \<Rightarrow> exc + response" where
  "get_reversed client d viewname a = map_sum id (client d) (reverse viewname a)"

definition index_test_no_questions :: "(db \<Rightarrow> string \<Rightarrow> response) \<Rightarrow> bool" where
  "index_test_no_questions client \<longleftrightarrow>
     (case get_reversed client empty_db ''polls:index'' (ArgTuple []) of
        Inl _ \<Rightarrow> False
      | Inr response \<Rightarrow>
          status_code response = 200 \<and> shows_no_polls response \<and>
          latest_question_list response = Some [])"

definition index_test_future_question :: "(db \<Rightarrow> string \<Rightarrow> response) \<Rightarrow> timestamp \<Rightarrow> bool" where
  "index_test_future_question client t0 \<longleftrightarrow>
     (let (_, d) = create_question empty_db ''Future question'' 30 t0
      in case get_reversed client d ''polls:index'' (ArgTuple []) of
           Inl _ \<Rightarrow> False
         | Inr response \<Rightarrow> shows_no_polls response \<and> latest_question_list response = Some [])"

definition index_test_past_question :: "(db \<Rightarrow> string \<Rightarrow> response) \<Rightarrow> timestamp \<Rightarrow> bool" where
  "index_test_past_question client t0 \<longleftrightarrow>
     (let (question, d) = create_question empty_db ''Past question'' (-10) t0
      in case get_reversed client d ''polls:index'' (ArgTuple []) of
           Inl _ \<Rightarrow> False
         | Inr response \<Rightarrow> latest_question_list response = Some [question])"

definition index_test_future_question_and_past_question ::
  "(db \<Rightarrow> string \<Rightarrow> response) \<Rightarrow> timestamp \<Rightarrow> bool" where
  "index_test_future_question_and_past_question client t0 \<longleftrightarrow>
     (let (past_question, d) = create_question empty_db ''Past question'' (-30) t0;
          (future_question, d) = create_question d ''Future question'' 30 t0
      in case get_reversed client d ''polls:index'' (ArgTuple []) of
           Inl _ \<Rightarrow> False
         | Inr response \<Rightarrow> latest_question_list response = Some [past_question])"

definition index_test_two_past_question :: "(db \<Rightarrow> string \<Rightarrow> response) \<Rightarrow> timestamp \<Rightarrow> bool" where
  "index_test_two_past_question client t0 \<longleftrightarrow>
     (let (past_question1, d) = create_question empty_db ''Past question 1'' (-30) t0;
          (past_question2, d) = create_question d ''Past question 2'' (-40) t0
      in case get_reversed client d ''polls:index'' (ArgTuple []) of
           Inl _ \<Rightarrow> False
         | Inr response \<Rightarrow> latest_question_list response = Some [past_question1, past_question2])"

definition index_test_two_future_question :: "(db \<Rightarrow> string \<Rightarrow> response) \<Rightarrow> timestamp \<Rightarrow> bool" where
  "index_test_two_future_question client t0 \<longleftrightarrow>
     (let (future_question1, d) = create_question empty_db ''Future question 1'' 30 t0;
          (future_question2, d) = create_question d ''Future question 2'' 40 t0
      in case get_reversed client d ''polls:index'' (ArgTuple []) of
           Inl _ \<Rightarrow> False
         | Inr response \<Rightarrow> latest_question_list response = Some [])"

definition detail_test_future_question :: "(db \<Rightarrow> string \<Rightarrow> response) \<Rightarrow> timestamp \<Rightarrow> bool" where
  "detail_test_future_question client t0 \<longleftrightarrow>
     (let (future_question, d) = create_question empty_db ''Future question'' 30 t0
      in case get_reversed client d ''polls:detail'' (ArgTuple [qid future_question]) of
           Inl _ \<Rightarrow> False
         | Inr response \<Rightarrow> status_code response = 404)"

definition detail_test_past_question :: "(db \<Rightarrow> string \<Rightarrow> response) \<Rightarrow> timestamp \<Rightarrow> bool" where
  "detail_test_past_question client t0 \<longleftrightarrow>
     (let (past_question, d) = create_question empty_db ''past question'' (-30) t0
      in case get_reversed client d ''polls:detail'' (ArgTuple [qid past_question]) of
           Inl _ \<Rightarrow> False
         | Inr response \<Rightarrow> shows_question response past_question)"

subsection \<open>The views the specification describes\<close>

text \<open>
  Specification 6: the request handler filters listings with \<open>isVisible\<close>; the tests
  also expect the detail page of a question that is not yet visible to be a 404.
  Both are read at the request's clock \<open>now\<close>.
\<close>

definition index_spec :: "timestamp \<Rightarrow> db \<Rightarrow> response" where
  "index_spec now d =
     Render ''polls/index.html'' (IndexCtx (filter (\<lambda>q. is_visible q now) (objects_all d)))"

definition detail_spec :: "timestamp \<Rightarrow> db \<Rightarrow> pk \<Rightarrow> response" where
  "detail_spec now d question_id =
     (case get_question_or_404 d question_id of
        Inl e \<Rightarrow> raise_response e
      | Inr question \<Rightarrow>
          if is_visible question now then Render ''polls/detail.html'' (DetailCtx question None)
          else NotFound)"

subsection \<open>Outcomes of the test suite\<close>

text \<open>
  C22: the code's index and detail views agree with the views the specification
  describes exactly on the databases in which no question is dated in the future: the
  missing visibility filter is the only difference between them.
\<close>

theorem views_agree_with_spec_iff:
  assumes "wf_db d"
  shows "(index d = index_spec now d \<longleftrightarrow> list_all (\<lambda>q. is_visible q now) (questions d)) \<and>
         ((\<forall>k. detail d k = detail_spec now d k) \<longleftrightarrow> list_all (\<lambda>q. is_visible q now) (questions d))"
proof
  show "index d = index_spec now d \<longleftrightarrow> list_all (\<lambda>q. is_visible q now) (questions d)"
    using filter_id_conv [of "\<lambda>q. is_visible q now" "questions d"]
    by (auto simp: index_def index_spec_def objects_all_def list_all_iff)
next
  show "(\<forall>k. detail d k = detail_spec now d k) \<longleftrightarrow> list_all (\<lambda>q. is_visible q now) (questions d)"
  proof
    assume all: "\<forall>k. detail d k = detail_spec now d k"
    show "list_all (\<lambda>q. is_visible q now) (questions d)"
    proof (unfold list_all_iff, intro ballI)
      fix q assume q: "q \<in> set (questions d)"
      have g: "get_question_or_404 d (qid q) = Inr q" using assms q by (rule get_question_or_404_found)
      from all have "detail d (qid q) = detail_spec now d (qid q)" by blast
      with g show "is_visible q now" by (simp add: detail_def detail_spec_def split: if_splits)
    qed
  next
    assume vis: "list_all (\<lambda>q. is_visible q now) (questions d)"
    show "\<forall>k. detail d k = detail_spec now d k"
    proof
      fix k
      show "detail d k = detail_spec now d k"
      proof (cases "get_question_or_404 d k")
        case (Inl e)
        then show ?thesis by (simp add: detail_def detail_spec_def)
      next
        case (Inr q)
        then have "q \<in> set (questions d)" by (rule get_question_or_404_Inr)
        with vis Inr show ?thesis by (simp add: detail_def detail_spec_def list_all_iff)
      qed
    qed
  qed
qed

theorem views_agree_with_spec_iff_witness:
  "(index demo_db = index_spec 0 demo_db \<longleftrightarrow> list_all (\<lambda>q. is_visible q 0) (questions demo_db)) \<and>
   ((\<forall>k. detail demo_db k = detail_spec 0 demo_db k) \<longleftrightarrow> list_all (\<lambda>q. is_visible q 0) (questions demo_db))"
  by (rule views_agree_with_spec_iff [OF wf_demo_db])

end
