(* ===== verification/Spec2Isabelle.thy ===== *)
theory Spec2Isabelle
  imports Polls_Schedules Polls_Tests Polls_Urls
begin

text \<open>
  \<^bold>\<open>A verification development of the Django polls app\<close> (\<open>CVinteractivo/polls\<close>).

  \<^bold>\<open>The program.\<close> \<open>src/CVinteractivo/polls/views.py\<close> has four views:
  \<open>index\<close> lists \<open>Question.objects.all()\<close>; \<open>detail\<close> renders one question or
  answers 404; \<open>results\<close> returns a fixed text with the id; \<open>vote\<close> looks the
  question up, reads the posted choice, increments its counter, saves it, and redirects
  to the results page. \<open>src/CVinteractivo/polls/tests.py\<close> tests
  \<open>Question.was_published_recently\<close> and the \<open>index\<close> and \<open>detail\<close> views.
  The models (\<open>models.py\<close>), the URL configuration and the templates are not staged;
  the models and the publication window are modelled from the specification. The views
  talk to the database through the Django ORM, to the user through rendered templates,
  redirects and error pages; concurrent requests share the database.

  \<^bold>\<open>Theories, in import order.\<close>
  \<^item> \<open>Polls_Prelude\<close>: the types \<open>timestamp\<close> (microseconds) and \<open>pk\<close>, the
    collection \<open>polls_defs\<close>, \<open>replace_key\<close> (an SQL UPDATE by primary key on a
    list of rows) and the list lemmas the components share (lookup by a distinct key,
    \<open>find\<close> after an update or append, \<open>filter\<close> after a list update).
  \<^item> \<open>Polls_Models\<close>: the records \<open>question\<close> and \<open>choice\<close>, \<open>timedelta_days\<close>,
    and the specification's PublishWindowEvaluator: \<open>was_published_recently\<close>
    (\<open>pub_date \<le> now \<and> now - pub_date < 1 day\<close>) and \<open>is_visible\<close>.
  \<^item> \<open>Polls_PyInt\<close>: Python's \<open>str(n)\<close> (\<open>str_of_int\<close>) and CPython 3.11's
    \<open>int(s)\<close> on ASCII text (\<open>python_int\<close>): it strips the whitespace
    characters 9-13 and 32, takes a sign and digit groups separated by single
    underscores, and refuses a numeral of more than 4300 digits
    (\<open>int_max_str_digits\<close>, \<open>sys.int_info.default_max_str_digits\<close>); the round trip
    \<open>python_int (str_of_int i) = Some i\<close> for every \<open>i\<close> whose numeral fits
    (\<open>fits_int_str\<close>).
  \<^item> \<open>Polls_Store\<close>: the database \<open>db\<close> (the Question and Choice tables as lists in
    primary-key order, with their auto-increment counters), the exceptions \<open>exc\<close>,
    \<open>orm_get\<close> (\<open>QuerySet.get\<close>), \<open>get_question_or_404\<close>, \<open>choice_set_get\<close>,
    \<open>objects_all\<close>, \<open>save_choice\<close> (\<open>Model.save()\<close>), \<open>question_objects_create\<close>,
    \<open>create_choice\<close>; the invariant \<open>wf_db\<close> (unique keys, valid foreign keys,
    non-negative counters) and the abstractions \<open>tally\<close> and \<open>owner\<close>.
  \<^item> \<open>Polls_Views\<close>: \<open>response\<close> and \<open>view_context\<close>, \<open>post_getitem\<close>
    (\<open>request.POST[...]\<close>), the views \<open>index\<close>, \<open>detail\<close>, \<open>results\<close>,
    \<open>vote\<close> (with \<open>selected_choice_get\<close> for line 29 and \<open>reverse_results\<close> for
    line 39), and the operations of the app as a datatype \<open>db_op\<close> with \<open>app_step\<close>
    and \<open>run_ops\<close>; claims C1, C2, C5-C11, C14-C18.
  \<^item> \<open>Polls_Concurrency\<close>: \<open>vote\<close> split into \<open>vote_read\<close> and \<open>vote_write\<close>,
    request threads (\<open>thread\<close>), the shared state \<open>sys\<close>, \<open>thread_step\<close>, the step
    relation \<open>conc_step\<close> and reachability \<open>reach\<close>, schedules \<open>run_sched\<close>, and
    the two invariants: \<open>conc_inv\<close> (counter bounds) and \<open>count_inv\<close> (the saves
    are the finished valid votes, \<open>vote_valid\<close>); claim C13.
  \<^item> \<open>Polls_Schedules\<close>: explicit schedules and \<open>all_finished\<close>; claims C3, C12 and
    C24 (the run in which every read comes before every write).
  \<^item> \<open>Polls_Urls\<close>: the URL configuration (\<open>route\<close>, \<open>view_name\<close>, \<open>route_suffix\<close>,
    the prefix \<open>/polls/\<close>), Django's \<open>reverse\<close> (\<open>star_args\<close> for
    \<open>args or []\<close> and \<open>*args\<close>, \<open>reverse_with_prefix\<close>), the resolver \<open>resolve\<close>,
    HTTP requests with every method (\<open>request_POST\<close> is empty unless the method is
    POST), \<open>dispatch\<close> of a request to its view and the test client's \<open>client_get\<close>;
    the well-formedness of responses \<open>response_ok\<close>; claims C19-C21.
  \<^item> \<open>Polls_Tests\<close>: every test of \<open>tests.py\<close> as a boolean function, the view tests
    going through \<open>reverse\<close> and the test client; \<open>index_spec\<close> and
    \<open>detail_spec\<close>, the views the specification describes; claim C22.
  \<^item> this theory: the specification's VoteRecorder contract \<open>record_vote\<close> on the
    abstract state \<open>vr_state\<close>, the abstraction \<open>abs_db\<close>, the contract over sequences
    \<open>record_votes\<close>, and the refinements C4 and C23.

  \<^bold>\<open>What the lemmas show.\<close> The vote view on every branch: a valid vote adds exactly one
  to one counter and then fails with a server error, because \<open>args=(question.id)\<close> is
  not a tuple (C1, C2); a 404 exactly when the question is missing, a missing or foreign
  choice or a missing key re-renders the form, a choice that int() refuses is an uncaught
  \<open>ValueError\<close> (C8-C11), and on a well-formed database these are all the answers
  it can give (C18). On the state it implements the specification's recordVote (C4) and
  keeps the database well formed (C5, C6); n sequential votes count n (C7) and no
  sequence of operations lowers a counter (C17). Concurrently, votes are lost (C3) and
  counters can go down (C12), yet every counter stays between its start value and start
  plus the number of saves, and once all requests are answered every valid vote has been
  saved exactly once (C13); for every n, n concurrent valid votes for one choice can all
  be saved while the counter rises by one only (C24). \<open>index\<close> and \<open>detail\<close>
  apply no visibility filter (C14-C16), and the code's views agree with the
  specification's filtered views exactly on the databases without future questions
  (C22). Served one after another, any sequence of submissions refines the contract over
  that sequence (C23). Around the views: only a POST can write (C19), a request of the
  vote URL with any other method re-renders the form (C20), and every response of the
  app is well formed (C21).

  \<^bold>\<open>Bounds and fuel.\<close> Every function is total by structural recursion (\<open>str_of_nat\<close>
  by the measure of its \<open>div 10\<close> recursion), so no fuel is needed; schedules of the
  concurrent system are finite lists. Python integers, primary keys and counters are
  unbounded \<open>int\<close> (see below). The one bound of the model is int()'s limit of 4300
  digits: the claims that post a key as \<open>str(key)\<close> and expect it back (C4, C7, C23)
  hold for the keys whose numeral has at most 4300 digits (\<open>fits_int_str\<close>); for a
  longer key CPython 3.11 raises \<open>ValueError\<close> and the view answers 500.

  \<^bold>\<open>Not modelled.\<close> Template rendering (the model stops at the context handed to
  \<open>render\<close>); the middleware (\<open>APPEND_SLASH\<close> redirects, CSRF checks of the vote
  form) and the admin's routes, which the project URL configuration also mounts; the
  admin, settings and migrations; \<open>int()\<close> of non-ASCII text (CPython reads
  Unicode digits and spaces, the model refuses every non-ASCII character, so the claims
  that need int() to refuse a value, C11 and C13, assume ASCII text,
  \<open>ascii_string\<close>); transactions other than Django's default autocommit; the order of
  \<open>Question.objects.all()\<close> is taken as primary-key order, since no
  \<open>Meta.ordering\<close> is known. \<open>polls/urls.py\<close> is not staged: its routes are the
  ones the code names.

  The width of the database columns: \<open>models.py\<close> and the settings (the database
  backend, \<open>DEFAULT_AUTO_FIELD\<close>) are not staged, so whether a counter or a key out
  of range is an \<open>OverflowError\<close>, a 404 or a stored value cannot be read off the
  code; integers stay unbounded. Creations of choices concurrent with votes: the
  sources create no choice (the admin does), and a creation only appends a row.

  \<^bold>\<open>Plan for later work.\<close> Concurrent schedules in which the admin's creations
  interleave with votes, should the admin be brought into scope.\<close>

subsection \<open>The VoteRecorder contract of the specification\<close>

text \<open>
  Specification 4.2: \<open>recordVote(questionId, choiceId)\<close> fails with \<open>NotFound\<close> when
  the question does not exist, with \<open>InvalidChoice\<close> when the choice does not exist
  or belongs to another question, and otherwise increments the choice's counter by
  exactly one. Its state is the set of questions, the owner of each choice and the
  counters; \<open>abs_db\<close> reads that state off the database.
\<close>

datatype vote_error = VRNotFound | VRInvalidChoice

record vr_state =
  vr_questions :: "pk list"
  vr_owner :: "pk \<Rightarrow> pk option"
  vr_votes :: "pk \<Rightarrow> int option"

definition record_vote :: "vr_state \<Rightarrow> pk \<Rightarrow> pk \<Rightarrow> vote_error + vr_state" where
  "record_vote st q c =
     (if q \<notin> set (vr_questions st) then Inl VRNotFound
      else case (vr_owner st c, vr_votes st c) of
             (Some q', Some v) \<Rightarrow>
               if q' = q then Inr (st\<lparr>vr_votes := (vr_votes st)(c \<mapsto> v + 1)\<rparr>) else Inl VRInvalidChoice
           | _ \<Rightarrow> Inl VRInvalidChoice)"

definition abs_db :: "db \<Rightarrow> vr_state" where
  "abs_db d = \<lparr>vr_questions = map qid (questions d), vr_owner = owner d, vr_votes = tally d\<rparr>"

text \<open>
  The contract over a sequence of submissions, each a question key and a choice key:
  a failed \<open>recordVote\<close> leaves the state as it was.
\<close>

fun record_votes :: "vr_state \<Rightarrow> (pk \<times> pk) list \<Rightarrow> vr_state" where
  "record_votes st [] = st"
| "record_votes st ((q, c) # vs) =
     record_votes (case record_vote st q c of Inl _ \<Rightarrow> st | Inr st' \<Rightarrow> st') vs"

text \<open>The same submissions as POST requests of the vote form, served one after another.\<close>

definition vote_posts :: "(pk \<times> pk) list \<Rightarrow> db_op list" where
  "vote_posts vs = map (\<lambda>(q, c). OpVote q [(''choice'', str_of_int c)]) vs"

subsection \<open>The contract read off a well-formed database\<close>

lemma record_vote_abs_missing:
  "q \<notin> set (map qid (questions d)) \<Longrightarrow> record_vote (abs_db d) q c = Inl VRNotFound"
  by (simp add: record_vote_def abs_db_def)

lemma record_vote_abs_invalid:
  assumes "wf_db d" "q \<in> set (map qid (questions d))"
    and "\<not> (\<exists>x\<in>set (choices d). choice_question x = q \<and> cid x = c)"
  shows "record_vote (abs_db d) q c = Inl VRInvalidChoice"
proof (cases "find (\<lambda>x. cid x = c) (choices d)")
  case None
  with assms(2) show ?thesis by (simp add: record_vote_def abs_db_def owner_def tally_def)
next
  case (Some x)
  with assms(3) have "choice_question x \<noteq> q" by (auto dest: find_Some_mem)
  with Some assms(2) show ?thesis by (simp add: record_vote_def abs_db_def owner_def tally_def)
qed

lemma record_vote_abs_ok:
  assumes wf: "wf_db d" and q: "q \<in> set (map qid (questions d))"
    and x: "x \<in> set (choices d)" "cid x = c" "choice_question x = q"
  shows "record_vote (abs_db d) q c = Inr (abs_db (save_choice d (x\<lparr>votes := votes x + 1\<rparr>)))"
proof -
  have fx: "find (\<lambda>y. cid y = c) (choices d) = Some x"
    using find_key_distinct [of cid "choices d" x] wf x by (simp add: wf_db_def)
  have "abs_db (save_choice d (x\<lparr>votes := votes x + 1\<rparr>)) =
      (abs_db d)\<lparr>vr_votes := (tally d)(c \<mapsto> votes x + 1)\<rparr>"
    using owner_save_choice [of d "x\<lparr>votes := votes x + 1\<rparr>"] tally_save_choice [of d "x\<lparr>votes := votes x + 1\<rparr>"]
      x fx
    by (auto simp: abs_db_def owner_def fun_upd_idem)
  with q x fx show ?thesis by (simp add: record_vote_def abs_db_def owner_def tally_def)
qed

text \<open>The state a vote leaves is the contract's new state, or the old one where it fails.\<close>

lemma vote_abs_db:
  assumes wf: "wf_db d" and fits: "fits_int_str c"
  shows "abs_db (snd (vote d q [(''choice'', str_of_int c)])) =
           (case record_vote (abs_db d) q c of Inl _ \<Rightarrow> abs_db d | Inr st' \<Rightarrow> st')"
proof (cases "q \<in> set (map qid (questions d))")
  case False
  then have "get_question_or_404 d q = Inl Http404" by (intro get_question_or_404_missing) auto
  with False show ?thesis by (simp add: record_vote_abs_missing vote_def)
next
  case True
  then obtain question where qm: "question \<in> set (questions d)" and qq: "qid question = q" by auto
  show ?thesis
  proof (cases "\<exists>x\<in>set (choices d). choice_question x = q \<and> cid x = c")
    case True
    then obtain x where x: "x \<in> set (choices d)" "choice_question x = q" "cid x = c" by blast
    from vote_valid_post [OF wf qm x(1)] x qq fits
    have "snd (vote d q [(''choice'', str_of_int c)]) = save_choice d (x\<lparr>votes := votes x + 1\<rparr>)" by simp
    with record_vote_abs_ok [OF wf \<open>q \<in> set (map qid (questions d))\<close> x(1) x(3) x(2)] show ?thesis by simp
  next
    case False
    then have "choice_set_get d question c = Inl DoesNotExist"
      using qq by (intro choice_set_get_missing) auto
    with False get_question_or_404_found [OF wf qm] qq
      record_vote_abs_invalid [OF wf \<open>q \<in> set (map qid (questions d))\<close> False]
    show ?thesis
      by (simp add: vote_def selected_choice_get_def post_getitem_single python_int_str_of_int [OF fits])
  qed
qed

text \<open>
  C4: the vote view refines the specification's recordVote on the state, for a vote
  posted as the decimal text of a choice key that int() reads back (at most 4300 digits): where recordVote fails with NotFound the
  view answers 404, where it fails with InvalidChoice the view re-renders the detail
  page with the error, and where it succeeds the database after the view is exactly the
  contract's new state. The response on success is not the contract's success: it is a
  server error.
\<close>

theorem vote_refines_record_vote:
  assumes wf: "wf_db d" and fits: "fits_int_str c"
  shows "case record_vote (abs_db d) q c of
           Inl VRNotFound \<Rightarrow> vote d q [(''choice'', str_of_int c)] = (NotFound, d)
         | Inl VRInvalidChoice \<Rightarrow>
             (\<exists>question. vote d q [(''choice'', str_of_int c)] =
                (Render ''polls/detail.html'' (DetailCtx question (Some no_choice_msg)), d))
         | Inr st' \<Rightarrow>
             abs_db (snd (vote d q [(''choice'', str_of_int c)])) = st' \<and>
             (\<exists>e. fst (vote d q [(''choice'', str_of_int c)]) = ServerError e)"
proof (cases "q \<in> set (map qid (questions d))")
  case False
  then have "get_question_or_404 d q = Inl Http404" by (intro get_question_or_404_missing) auto
  with False show ?thesis by (simp add: record_vote_abs_missing vote_def raise_response_def)
next
  case True
  then obtain question where qm: "question \<in> set (questions d)" and qq: "qid question = q" by auto
  have g: "get_question_or_404 d q = Inr question"
    using get_question_or_404_found [OF wf qm] qq by simp
  have sel: "selected_choice_get d question [(''choice'', str_of_int c)] = choice_set_get d question c"
    by (simp add: selected_choice_get_def post_getitem_single python_int_str_of_int [OF fits])
  show ?thesis
  proof (cases "\<exists>x\<in>set (choices d). choice_question x = q \<and> cid x = c")
    case True
    then obtain x where x: "x \<in> set (choices d)" "choice_question x = q" "cid x = c" by blast
    have v: "vote d (qid question) [(''choice'', str_of_int c)] =
        (ServerError (if qid question = 0 then NoReverseMatch else TypeError),
         save_choice d (x\<lparr>votes := votes x + 1\<rparr>))"
      using vote_selected [OF wf qm x(1) _ post_getitem_single] x qq python_int_str_of_int [OF fits] by simp
    with record_vote_abs_ok [OF wf \<open>q \<in> set (map qid (questions d))\<close> x(1) x(3) x(2)] qq
    show ?thesis by simp
  next
    case False
    then have "choice_set_get d question c = Inl DoesNotExist"
      using qq by (intro choice_set_get_missing) auto
    with False g sel record_vote_abs_invalid [OF wf \<open>q \<in> set (map qid (questions d))\<close> False]
    show ?thesis by (simp add: vote_def)
  qed
qed

theorem vote_refines_record_vote_witness:
  "abs_db (snd (vote demo_db 1 [(''choice'', str_of_int 1)])) =
     (abs_db demo_db)\<lparr>vr_votes := (tally demo_db)(1 \<mapsto> 6)\<rparr>"
proof -
  have "record_vote (abs_db demo_db) 1 1 = Inr ((abs_db demo_db)\<lparr>vr_votes := (tally demo_db)(1 \<mapsto> 6)\<rparr>)"
    by (simp add: record_vote_def abs_db_def owner_def tally_def demo_db_def demo_q_def demo_c1_def)
  moreover have "fits_int_str 1" by (simp add: fits_int_str_digit)
  ultimately show ?thesis using vote_refines_record_vote [OF wf_demo_db, of 1 1] by simp
qed

text \<open>
  C23: served one after another, any sequence of vote submissions (each posted as the
  decimal text of a choice key of at most 4300 digits, which int() reads back) refines the specification's recordVote called on
  the same sequence: the abstract state after the requests is the state the contract
  reaches, failed submissions included.
\<close>

theorem run_ops_refines_record_votes:
  assumes "wf_db d" and "list_all (\<lambda>(q, c). fits_int_str c) vs"
  shows "abs_db (run_ops d (vote_posts vs)) = record_votes (abs_db d) vs"
  using assms
proof (induction vs arbitrary: d)
  case Nil
  then show ?case by (simp add: vote_posts_def)
next
  case (Cons v vs)
  obtain q c where v: "v = (q, c)" by (cases v)
  let ?d' = "snd (vote d q [(''choice'', str_of_int c)])"
  have fits: "fits_int_str c" and rest: "list_all (\<lambda>(q, c). fits_int_str c) vs"
    using Cons.prems(2) v by simp_all
  have "wf_db ?d'" using Cons.prems(1) by (rule wf_vote)
  then have "abs_db (run_ops ?d' (vote_posts vs)) = record_votes (abs_db ?d') vs" using rest by (rule Cons.IH)
  moreover have "abs_db ?d' = (case record_vote (abs_db d) q c of Inl _ \<Rightarrow> abs_db d | Inr st' \<Rightarrow> st')"
    using Cons.prems(1) fits by (rule vote_abs_db)
  ultimately show ?case by (simp add: v vote_posts_def)
qed

theorem run_ops_refines_record_votes_witness:
  "abs_db (run_ops demo_db (vote_posts [(1, 1), (1, 3), (2, 1), (1, 1)])) =
     record_votes (abs_db demo_db) [(1, 1), (1, 3), (2, 1), (1, 1)]"
proof -
  have "list_all (\<lambda>(q, c). fits_int_str c) [(1::int, 1::int), (1, 3), (2, 1), (1, 1)]"
    by (simp add: fits_int_str_digit)
  then show ?thesis by (rule run_ops_refines_record_votes [OF wf_demo_db])
qed

end
